theory Spec2Isabelle
  imports Complex_Main
begin

section \<open>AutoAttack: the evaluation orchestrator of autoattack.py\<close>

text \<open>
  The theory embeds the class \<open>AutoAttack\<close> of \<open>autoattack.py\<close>. The model, the four
  attack adapters and the wall clock are external collaborators and enter as the fields
  of an environment record; everything the file itself computes (the reconciliation of
  the attack list, the batching, the index bookkeeping, the dispatch on the attack
  identifier, the early exit, the diagnostics) is translated statement by statement.
  Python exceptions are values of \<open>error\<close>; a function that can raise returns
  \<open>error + 'a\<close> with \<open>Inl\<close> for the exception. The state of the object after an
  exception is not modelled.
\<close>

subsection \<open>Exceptions\<close>

datatype error =
    AssertionError
  | TypeError
  | ValueError string
  | ZeroDivisionError
  | IndexError
  | AttributeError
  | UnboundLocalError
  | RuntimeError
  | UpstreamFailure

subsection \<open>Tensors\<close>

text \<open>
  A tensor is its whole shape and its entries in row-major order. For labels and index
  tensors an entry is a number. For a tensor of inputs an entry is one sample (opaque, of
  type \<open>'x\<close>): a block of the trailing dimensions \<open>x_inner = x_orig.shape[1:]\<close>. A
  tensor of inputs of shape \<open>lead @ x_inner\<close> has one entry for every index of \<open>lead\<close>;
  its size along dimension 0 is the head of its shape, which need not be the number of its
  entries.
\<close>

record 'a tensor =
  shape :: "nat list"
  rows :: "'a list"

text \<open>\<open>torch.sum(robust_flags).item()\<close>\<close>

definition count_true :: "bool list \<Rightarrow> nat" where
  "count_true flags = length (filter (\<lambda>b. b) flags)"

text \<open>\<open>torch.nonzero(robust_flags, as_tuple=False)\<close>: a column of shape \<open>[z, 1]\<close>.\<close>

definition nonzero :: "bool list \<Rightarrow> nat tensor" where
  "nonzero flags =
     \<lparr>shape = [count_true flags, 1], rows = filter (\<lambda>i. flags ! i) [0..<length flags]\<rparr>"

text \<open>\<open>t.squeeze_()\<close> drops every dimension of size 1.\<close>

definition squeeze :: "'a tensor \<Rightarrow> 'a tensor" where
  "squeeze t = t\<lparr>shape := filter (\<lambda>d. d \<noteq> 1) (shape t)\<rparr>"

text \<open>
  \<open>t.unsqueeze_(dim=0)\<close>: the data stay and the shape gets a leading dimension of size
  one. The \<open>k\<close> samples of a sub-batch of shape \<open>[k, H, W]\<close> are afterwards the \<open>k\<close>
  channels of the single element of a batch of shape \<open>[1, k, H, W]\<close>.
\<close>

definition unsqueeze0 :: "'a tensor \<Rightarrow> 'a tensor" where
  "unsqueeze0 t = t\<lparr>shape := 1 # shape t\<rparr>"

text \<open>
  \<open>t[start:end]\<close> along dimension 0, for non-negative bounds (Python clamps them to the
  size). Slicing a 0-dimensional tensor raises.
\<close>

definition slice0 :: "'a tensor \<Rightarrow> nat \<Rightarrow> nat \<Rightarrow> error + 'a tensor" where
  "slice0 t start end =
     (case shape t of
        [] \<Rightarrow> Inl IndexError
      | n # ds \<Rightarrow>
          let lo = min start n; hi = max lo (min end n); p = prod_list ds
          in Inr \<lparr>shape = (hi - lo) # ds, rows = take ((hi - lo) * p) (drop (lo * p) (rows t))\<rparr>)"

text \<open>
  \<open>xs[idx]\<close> for an index tensor \<open>idx\<close> (advanced indexing on dimension 0): the result
  has the shape of \<open>idx\<close> followed by the shape \<open>inner\<close> of one entry of \<open>xs\<close>.
\<close>

definition index_rows :: "'a list \<Rightarrow> nat list \<Rightarrow> nat tensor \<Rightarrow> error + 'a tensor" where
  "index_rows xs inner idx =
     (if list_all (\<lambda>i. i < length xs) (rows idx)
      then Inr \<lparr>shape = shape idx @ inner, rows = map (nth xs) (rows idx)\<rparr>
      else Inl IndexError)"

text \<open>\<open>xs[mask]\<close> for a boolean mask.\<close>

definition mask_select :: "'a list \<Rightarrow> bool list \<Rightarrow> 'a list" where
  "mask_select xs msk = map fst (filter snd (zip xs msk))"

text \<open>\<open>flags[idxs] = False\<close> and \<open>xs[idxs] = vals\<close>\<close>

fun index_fill :: "bool list \<Rightarrow> nat list \<Rightarrow> bool \<Rightarrow> bool list" where
  "index_fill flags [] v = flags"
| "index_fill flags (i # idxs) v = index_fill (flags[i := v]) idxs v"

fun index_put :: "'a list \<Rightarrow> nat list \<Rightarrow> 'a list \<Rightarrow> 'a list" where
  "index_put xs (i # idxs) (v # vs) = index_put (xs[i := v]) idxs vs"
| "index_put xs _ _ = xs"

text \<open>
  \<open>y.eq(p)\<close> on the entries of two label vectors. Vectors of the same length are compared
  entry by entry; a vector of length one is broadcast against the other; any other pair
  of lengths raises.
\<close>

definition tensor_eq :: "nat list \<Rightarrow> nat list \<Rightarrow> error + bool list" where
  "tensor_eq y p =
     (if length y = length p then Inr (map (\<lambda>(a, b). a = b) (zip y p))
      else if length p = 1 then Inr (map (\<lambda>a. a = hd p) y)
      else if length y = 1 then Inr (map (\<lambda>b. hd y = b) p)
      else Inl RuntimeError)"

text \<open>
  \<open>flags[start:end] = v\<close> for a vector \<open>v\<close>: the bounds are clamped to the size, \<open>v\<close> has
  the length of the slice or is a single value, which then fills the slice; any other
  length raises.
\<close>

definition slice_assign :: "bool list \<Rightarrow> nat \<Rightarrow> nat \<Rightarrow> bool list \<Rightarrow> error + bool list" where
  "slice_assign flags start end v =
     (let n = length (take (end - start) (drop start flags))
      in if length v = n then Inr (take start flags @ v @ drop (start + n) flags)
         else if length v = 1 then Inr (take start flags @ replicate n (hd v) @ drop (start + n) flags)
         else Inl RuntimeError)"

text \<open>
  The shapes in \<open>xs[idxs] = value\<close> for an index tensor: the leading dimensions of size
  one of the value are dropped, and what is left must broadcast to the shape of
  \<open>xs[idxs]\<close>: it has no more dimensions, and each of its dimensions, aligned from the
  right, is the same or one.
\<close>

definition strip_ones :: "nat list \<Rightarrow> nat list" where
  "strip_ones ds = dropWhile (\<lambda>d. d = 1) ds"

definition expandable :: "nat list \<Rightarrow> nat list \<Rightarrow> bool" where
  "expandable v d =
     (length v \<le> length d \<and> list_all (\<lambda>(a, b). a = b \<or> a = 1) (zip (rev v) (rev d)))"

text \<open>\<open>int(np.ceil(n / bs))\<close> as the length of \<open>range(...)\<close> (empty when not positive).\<close>

definition n_batches_of :: "nat \<Rightarrow> int \<Rightarrow> nat" where
  "n_batches_of n bs = nat (- ((- int n) div bs))"

subsection \<open>The object and its adapters\<close>

text \<open>
  An attack adapter, as far as this file reads or writes its attributes. \<open>None\<close> is an
  attribute this file has not set (it holds what the adapter's own constructor left).
\<close>

record adapter =
  n_restarts :: nat
  n_queries :: "nat option"
  loss :: "string option"
  targeted :: "bool option"
  adapter_seed :: "real option"

text \<open>
  The fields of \<open>self\<close> (\<open>self.model\<close> is in the environment). \<open>self.norm\<close> and
  \<open>self.plus\<close> are \<open>norm_family\<close> and \<open>plus_mode\<close>. \<open>attacks_to_run\<close> is \<open>None\<close>
  when the attribute holds Python's \<open>None\<close>.
\<close>

record autoattack =
  norm_family :: string
  epsilon :: real
  seed :: "real option"
  verbose :: bool
  attacks_to_run :: "string list option"
  plus_mode :: bool
  is_tf_model :: bool
  device :: string
  apgd :: adapter
  fab :: adapter
  square :: adapter
  apgd_targeted :: adapter

datatype adapter_id = Apgd | Fab | Square | ApgdTargeted

text \<open>
  The collaborators: \<open>self.model(x)\<close>, \<open>self.model.predict(x)\<close>, \<open>output.max(dim=1)[1]\<close>
  on the model's output (a vector), \<open>adapter.perturb(x, y)\<close> (given the adapter's
  attributes at the call), and the readings of \<open>time.time()\<close> in the order they are
  taken. \<open>broadcast_entry adv msk j\<close> is entry \<open>j\<close> of what the tensor library writes
  for \<open>adv[msk]\<close> when \<open>adv[msk]\<close> has fewer elements than the entries it is assigned to
  and is repeated to fill them.
\<close>

record ('x, 'l) env =
  model_call :: "'x tensor \<Rightarrow> error + 'l"
  model_predict :: "'x tensor \<Rightarrow> error + 'l"
  max_dim1 :: "'l \<Rightarrow> nat list"
  perturb :: "adapter_id \<Rightarrow> adapter \<Rightarrow> 'x tensor \<Rightarrow> nat tensor \<Rightarrow> error + 'x tensor"
  broadcast_entry :: "'x tensor \<Rightarrow> bool list \<Rightarrow> nat \<Rightarrow> 'x"
  clock :: "nat \<Rightarrow> real"

text \<open>What the program prints.\<close>

datatype diag =
    InitialAccuracy real
  | BatchPerturbed string nat nat nat nat
  | RobustAccuracyAfter string real real
  | MaxPerturbation string
  | RobustAccuracy real
  | CleanAccuracy real
  | RobustAccuracyBy string real real

text \<open>
  The world outside the object: the \<open>perturb\<close> calls made so far, the lines printed and
  the number of clock readings taken.
\<close>

record 'x world =
  calls :: "(adapter_id \<times> adapter \<times> 'x tensor \<times> nat tensor) list"
  out :: "diag list"
  ticks :: nat

definition time_time :: "('x, 'l) env \<Rightarrow> 'x world \<Rightarrow> real \<times> 'x world" where
  "time_time env w = (clock env (ticks w), w\<lparr>ticks := Suc (ticks w)\<rparr>)"

definition print :: "diag \<Rightarrow> 'x world \<Rightarrow> 'x world" where
  "print d w = w\<lparr>out := out w @ [d]\<rparr>"

text \<open>\<open>list.extend\<close>: the list afterwards, and the value of the call, which is \<open>None\<close>.\<close>

definition list_extend :: "'a list \<Rightarrow> 'a list \<Rightarrow> 'a list \<times> 'a list option" where
  "list_extend l ys = (l @ ys, None)"

definition default_attacks_to_run :: "string list" where
  "default_attacks_to_run = [''apgd-ce'', ''apgd-dlr'', ''fab'', ''square'']"

text \<open>
  \<open>__init__\<close> (lines 10-56). Both branches on \<open>is_tf_model\<close> build the adapters with the
  same arguments. With \<open>plus\<close> the argument list is extended in place, and the attribute
  receives the value of the \<open>extend\<close> call.
\<close>

definition init ::
  "string \<Rightarrow> real \<Rightarrow> real option \<Rightarrow> bool \<Rightarrow> string list \<Rightarrow> bool \<Rightarrow> bool \<Rightarrow> string
     \<Rightarrow> error + autoattack" where
  "init nrm eps sd vb atr pl tf dev =
     (if nrm \<notin> set [''Linf'', ''L2''] then Inl AssertionError
      else Inr
        \<lparr>norm_family = nrm, epsilon = eps, seed = sd, verbose = vb,
         attacks_to_run = (if \<not> pl then Some atr else snd (list_extend atr [''apgd-t'', ''fab-t''])),
         plus_mode = pl, is_tf_model = tf, device = dev,
         apgd = \<lparr>n_restarts = 5, n_queries = None, loss = None, targeted = None, adapter_seed = sd\<rparr>,
         fab = \<lparr>n_restarts = 5, n_queries = None, loss = None, targeted = None, adapter_seed = sd\<rparr>,
         square = \<lparr>n_restarts = 1, n_queries = Some 5000, loss = None, targeted = None,
                   adapter_seed = sd\<rparr>,
         apgd_targeted = \<lparr>n_restarts = 1, n_queries = None, loss = None, targeted = None,
                          adapter_seed = sd\<rparr>\<rparr>)"

text \<open>\<open>get_logits\<close> (lines 60-64) and \<open>get_seed\<close> (lines 66-67)\<close>

definition get_logits :: "('x, 'l) env \<Rightarrow> autoattack \<Rightarrow> 'x tensor \<Rightarrow> error + 'l" where
  "get_logits env self x = (if \<not> is_tf_model self then model_call env x else model_predict env x)"

definition get_seed :: "('x, 'l) env \<Rightarrow> autoattack \<Rightarrow> 'x world \<Rightarrow> real \<times> 'x world" where
  "get_seed env self w = (case seed self of None \<Rightarrow> time_time env w | Some s \<Rightarrow> (s, w))"

text \<open>\<open>self.get_logits(x)\<close> followed by \<open>output.max(dim=1)[1]\<close>\<close>

definition predicted :: "('x, 'l) env \<Rightarrow> autoattack \<Rightarrow> 'x tensor \<Rightarrow> error + nat list" where
  "predicted env self x =
     (case get_logits env self x of Inl e \<Rightarrow> Inl e | Inr output \<Rightarrow> Inr (max_dim1 env output))"

text \<open>\<open>cheap\<close> (lines 235-240)\<close>

definition cheap :: "autoattack \<Rightarrow> autoattack" where
  "cheap self =
     self\<lparr>apgd := (apgd self)\<lparr>n_restarts := 1\<rparr>,
          fab := (fab self)\<lparr>n_restarts := 1\<rparr>,
          apgd_targeted := (apgd_targeted self)\<lparr>n_restarts := 1\<rparr>,
          square := (square self)\<lparr>n_queries := Some 1000\<rparr>,
          plus_mode := False\<rparr>"

subsection \<open>Loops\<close>

text \<open>A \<open>for\<close> loop whose body may raise: the first exception leaves the loop.\<close>

fun for_each :: "('a \<Rightarrow> 's \<Rightarrow> error + 's) \<Rightarrow> 'a list \<Rightarrow> 's \<Rightarrow> error + 's" where
  "for_each f [] s = Inr s"
| "for_each f (a # as) s = (case f a s of Inl e \<Rightarrow> Inl e | Inr s' \<Rightarrow> for_each f as s')"

subsection \<open>run_standard_evaluation\<close>

text \<open>
  Lines 71-80: the attack list is brought in line with \<open>self.plus\<close>. \<open>in\<close> on \<open>None\<close>
  raises \<open>TypeError\<close>; \<open>list.remove\<close> removes the first occurrence, as \<open>remove1\<close> does.
\<close>

definition extend_plus :: "string list \<Rightarrow> string list" where
  "extend_plus l =
     (let l1 = (if ''apgd-t'' \<notin> set l then fst (list_extend l [''apgd-t'']) else l)
      in if ''fab-t'' \<notin> set l1 then fst (list_extend l1 [''fab-t'']) else l1)"

definition remove_plus :: "string list \<Rightarrow> string list" where
  "remove_plus l =
     (let l1 = (if ''apgd-t'' \<in> set l then remove1 ''apgd-t'' l else l)
      in if ''fab-t'' \<in> set l1 then remove1 ''fab-t'' l1 else l1)"

definition reconcile :: "autoattack \<Rightarrow> error + autoattack" where
  "reconcile self =
     (case attacks_to_run self of
        None \<Rightarrow> Inl TypeError
      | Some l \<Rightarrow>
          Inr (self\<lparr>attacks_to_run := Some (if plus_mode self then extend_plus l else remove_plus l)\<rparr>))"

text \<open>
  Lines 87-94, the body of the clean pass. \<open>x_inner\<close> is \<open>x_orig.shape[1:]\<close>; the index
  \<open>[start_idx:end_idx, :]\<close> needs a second dimension. \<open>bs\<close> is positive whenever a body
  runs (\<open>range(n_batches)\<close> is empty otherwise), so the bodies take it as a \<open>nat\<close>.
\<close>

definition probe_batch ::
  "('x, 'l) env \<Rightarrow> autoattack \<Rightarrow> 'x list \<Rightarrow> nat list \<Rightarrow> nat list \<Rightarrow> nat \<Rightarrow> nat \<Rightarrow> bool list
     \<Rightarrow> error + bool list" where
  "probe_batch env self x_orig x_inner y_orig bs batch_idx flags =
     (let start_idx = batch_idx * bs;
          end_idx = min ((batch_idx + 1) * bs) (length x_orig)
      in if x_inner = [] then Inl IndexError
         else
           let xr = take (end_idx - start_idx) (drop start_idx x_orig);
               x = \<lparr>shape = length xr # x_inner, rows = xr\<rparr>;
               y = take (end_idx - start_idx) (drop start_idx y_orig)
           in case predicted env self x of
                Inl e \<Rightarrow> Inl e
              | Inr p \<Rightarrow>
                  (case tensor_eq y p of
                     Inl e \<Rightarrow> Inl e
                   | Inr correct_batch \<Rightarrow> slice_assign flags start_idx end_idx correct_batch))"

text \<open>The state of the stage loop: the object, the world and the locals of the function.\<close>

record 'x run_state =
  obj :: autoattack
  world :: "'x world"
  robust_flags :: "bool list"
  x_adv :: "'x list"
  robust_accuracy :: real

text \<open>Lines 84-102: up to and including \<open>startt = time.time()\<close>.\<close>

definition initial_pass ::
  "('x, 'l) env \<Rightarrow> autoattack \<Rightarrow> 'x world \<Rightarrow> 'x list \<Rightarrow> nat list \<Rightarrow> nat list \<Rightarrow> int
     \<Rightarrow> error + (real \<times> 'x run_state)" where
  "initial_pass env self w x_orig x_inner y_orig bs =
     (if bs = 0 then Inl ZeroDivisionError
      else
        case for_each (probe_batch env self x_orig x_inner y_orig (nat bs))
               [0..<n_batches_of (length x_orig) bs] (replicate (length x_orig) False) of
          Inl e \<Rightarrow> Inl e
        | Inr flags \<Rightarrow>
            if length x_orig = 0 then Inl ZeroDivisionError
            else
              let acc = real (count_true flags) / real (length x_orig);
                  w1 = (if verbose self then print (InitialAccuracy acc) w else w);
                  (startt, w2) = time_time env w1
              in Inr (startt,
                      \<lparr>obj = self, world = w2, robust_flags = flags, x_adv = x_orig,
                       robust_accuracy = acc\<rparr>))"

text \<open>
  Lines 129-164: the dispatch on the attack identifier. Every \<open>perturb\<close> call is entered
  in the log of the world. (\<open>cheap=True\<close> is passed to both gradient adapters.)
\<close>

definition call_perturb ::
  "('x, 'l) env \<Rightarrow> adapter_id \<Rightarrow> adapter \<Rightarrow> 'x tensor \<Rightarrow> nat tensor \<Rightarrow> 'x world
     \<Rightarrow> error + ('x tensor \<times> 'x world)" where
  "call_perturb env a cfg x y w =
     (case perturb env a cfg x y of
        Inl e \<Rightarrow> Inl e
      | Inr adv_curr \<Rightarrow> Inr (adv_curr, w\<lparr>calls := calls w @ [(a, cfg, x, y)]\<rparr>))"

definition run_attack ::
  "('x, 'l) env \<Rightarrow> string \<Rightarrow> 'x tensor \<Rightarrow> nat tensor \<Rightarrow> autoattack \<Rightarrow> 'x world
     \<Rightarrow> error + ('x tensor \<times> autoattack \<times> 'x world)" where
  "run_attack env attack x y self w =
     (if attack = ''apgd-ce'' then
        (let (s, w1) = get_seed env self w;
             self1 = self\<lparr>apgd := (apgd self)\<lparr>loss := Some ''ce'', adapter_seed := Some s\<rparr>\<rparr>
         in case call_perturb env Apgd (apgd self1) x y w1 of
              Inl e \<Rightarrow> Inl e
            | Inr (adv_curr, w2) \<Rightarrow> Inr (adv_curr, self1, w2))
      else if attack = ''apgd-dlr'' then
        (let (s, w1) = get_seed env self w;
             self1 = self\<lparr>apgd := (apgd self)\<lparr>loss := Some ''dlr'', adapter_seed := Some s\<rparr>\<rparr>
         in case call_perturb env Apgd (apgd self1) x y w1 of
              Inl e \<Rightarrow> Inl e
            | Inr (adv_curr, w2) \<Rightarrow> Inr (adv_curr, self1, w2))
      else if attack = ''fab'' then
        (let (s, w1) = get_seed env self w;
             self1 = self\<lparr>fab := (fab self)\<lparr>targeted := Some False, adapter_seed := Some s\<rparr>\<rparr>
         in case call_perturb env Fab (fab self1) x y w1 of
              Inl e \<Rightarrow> Inl e
            | Inr (adv_curr, w2) \<Rightarrow> Inr (adv_curr, self1, w2))
      else if attack = ''square'' then
        (let (s, w1) = get_seed env self w;
             self1 = self\<lparr>square := (square self)\<lparr>adapter_seed := Some s\<rparr>\<rparr>
         in case call_perturb env Square (square self1) x y w1 of
              Inl e \<Rightarrow> Inl e
            | Inr (adv_curr, w2) \<Rightarrow> Inr (adv_curr, self1, w2))
      else if attack = ''apgd-t'' then
        (let (s, w1) = get_seed env self w;
             self1 = self\<lparr>apgd_targeted := (apgd_targeted self)\<lparr>adapter_seed := Some s\<rparr>\<rparr>
         in case call_perturb env ApgdTargeted (apgd_targeted self1) x y w1 of
              Inl e \<Rightarrow> Inl e
            | Inr (adv_curr, w2) \<Rightarrow> Inr (adv_curr, self1, w2))
      else if attack = ''fab-t'' then
        (let (s, w1) = get_seed env self w;
             self1 = self\<lparr>fab := (fab self)\<lparr>targeted := Some True, adapter_seed := Some s\<rparr>\<rparr>
         in case call_perturb env Fab (fab self1) x y w1 of
              Inl e \<Rightarrow> Inl e
            | Inr (adv_curr, w2) \<Rightarrow> Inr (adv_curr, self1, w2))
      else Inl (ValueError ''Attack not supported''))"

text \<open>
  Lines 120-126: the sub-batch handed to the attack. \<open>x_orig[idcs, :]\<close> and \<open>y_orig[idcs]\<close>
  take the shape of the index tensor in front; a \<open>x\<close> of three dimensions gets a leading
  one.
\<close>

definition sub_batch ::
  "'x list \<Rightarrow> nat list \<Rightarrow> nat list \<Rightarrow> nat \<Rightarrow> nat tensor \<Rightarrow> nat \<Rightarrow> nat
     \<Rightarrow> error + (nat tensor \<times> 'x tensor \<times> nat tensor)" where
  "sub_batch x_orig x_inner y_orig bs robust_lin_idcs num_robust batch_idx =
     (let start_idx = batch_idx * bs;
          end_idx = min ((batch_idx + 1) * bs) num_robust
      in case slice0 robust_lin_idcs start_idx end_idx of
           Inl e \<Rightarrow> Inl e
         | Inr batch_datapoint_idcs \<Rightarrow>
             if x_inner = [] then Inl IndexError
             else
               (case index_rows x_orig x_inner batch_datapoint_idcs of
                  Inl e \<Rightarrow> Inl e
                | Inr x \<Rightarrow>
                    (case index_rows y_orig [] batch_datapoint_idcs of
                       Inl e \<Rightarrow> Inl e
                     | Inr y \<Rightarrow>
                         Inr (batch_datapoint_idcs,
                              (if length (shape x) = 3 then unsqueeze0 x else x), y))))"

text \<open>
  Lines 117-176, the body of the batch loop of one stage. \<open>false_batch\<close> has the shape
  of \<open>y\<close> with its last dimension broadcast against the predictions. A mask indexes a
  tensor whose leading dimensions are the dimensions of the mask (lines 168 and 171), and
  the assignment of line 171 needs the shapes to be \<open>expandable\<close>. Where
  \<open>adv_curr[false_batch]\<close> holds one sample for each entry it selects, these samples
  are written; otherwise the library repeats its elements.
\<close>

definition attack_batch ::
  "('x, 'l) env \<Rightarrow> 'x list \<Rightarrow> nat list \<Rightarrow> nat list \<Rightarrow> nat \<Rightarrow> string \<Rightarrow> nat tensor \<Rightarrow> nat \<Rightarrow> nat
     \<Rightarrow> nat \<Rightarrow> 'x run_state \<Rightarrow> error + 'x run_state" where
  "attack_batch env x_orig x_inner y_orig bs attack robust_lin_idcs num_robust n_batches
       batch_idx st =
     (case sub_batch x_orig x_inner y_orig bs robust_lin_idcs num_robust batch_idx of
        Inl e \<Rightarrow> Inl e
      | Inr (batch_datapoint_idcs, x, y) \<Rightarrow>
          (case run_attack env attack x y (obj st) (world st) of
             Inl e \<Rightarrow> Inl e
           | Inr (adv_curr, self1, w1) \<Rightarrow>
               (case predicted env self1 adv_curr of
                  Inl e \<Rightarrow> Inl e
                | Inr p \<Rightarrow>
                    (case tensor_eq (rows y) p of
                       Inl e \<Rightarrow> Inl e
                     | Inr eq \<Rightarrow>
                         let false_batch = map Not eq;
                             mask_shape = butlast (shape y) @ [length eq]
                         in if take (length mask_shape) (shape batch_datapoint_idcs) \<noteq> mask_shape
                            then Inl IndexError
                            else
                              let non_robust_lin_idcs =
                                    mask_select (rows batch_datapoint_idcs) false_batch;
                                  n = length non_robust_lin_idcs
                              in if take (length mask_shape) (shape adv_curr) \<noteq> mask_shape
                                 then Inl IndexError
                                 else
                                   let entry = drop (length mask_shape) (shape adv_curr)
                                   in if \<not> expandable (strip_ones (n # entry)) (n # x_inner)
                                      then Inl RuntimeError
                                      else
                                        Inr (st\<lparr>obj := self1,
                                                world :=
                                                  (if verbose self1
                                                   then print (BatchPerturbed attack (batch_idx + 1)
                                                          n_batches (count_true false_batch)
                                                          (hd (shape x))) w1
                                                   else w1),
                                                robust_flags :=
                                                  index_fill (robust_flags st) non_robust_lin_idcs False,
                                                x_adv :=
                                                  index_put (x_adv st) non_robust_lin_idcs
                                                    (if prod_list entry = prod_list x_inner
                                                     then mask_select (rows adv_curr) false_batch
                                                     else map (broadcast_entry env adv_curr false_batch)
                                                            [0..<n])\<rparr>)))))"

text \<open>Lines 178-181: the accuracy after a stage and its report.\<close>

definition stage_report ::
  "('x, 'l) env \<Rightarrow> 'x list \<Rightarrow> real \<Rightarrow> string \<Rightarrow> 'x run_state \<Rightarrow> error + 'x run_state" where
  "stage_report env x_orig startt attack st1 =
     (if length x_orig = 0 then Inl ZeroDivisionError
      else
        let acc = real (count_true (robust_flags st1)) / real (length x_orig);
            st2 = st1\<lparr>robust_accuracy := acc\<rparr>
        in if verbose (obj st2)
           then
             let (t, w1) = time_time env (world st2)
             in Inr (st2\<lparr>world := print (RobustAccuracyAfter attack acc (t - startt)) w1\<rparr>)
           else Inr st2)"

text \<open>Lines 105-181 without the test for the early exit: one stage.\<close>

definition run_stage ::
  "('x, 'l) env \<Rightarrow> 'x list \<Rightarrow> nat list \<Rightarrow> nat list \<Rightarrow> int \<Rightarrow> real \<Rightarrow> string \<Rightarrow> 'x run_state
     \<Rightarrow> error + 'x run_state" where
  "run_stage env x_orig x_inner y_orig bs startt attack st =
     (let num_robust = count_true (robust_flags st)
      in if bs = 0 then Inl ZeroDivisionError
         else
           let n_batches = n_batches_of num_robust bs;
               robust_lin_idcs =
                 (if num_robust > 1 then squeeze (nonzero (robust_flags st))
                  else nonzero (robust_flags st))
           in case for_each
                     (attack_batch env x_orig x_inner y_orig (nat bs) attack robust_lin_idcs
                        num_robust n_batches)
                     [0..<n_batches] st of
                Inl e \<Rightarrow> Inl e
              | Inr st1 \<Rightarrow> stage_report env x_orig startt attack st1)"

text \<open>Lines 103-108: the loop over the attacks, left when no robust sample remains.\<close>

fun run_stages ::
  "('x, 'l) env \<Rightarrow> 'x list \<Rightarrow> nat list \<Rightarrow> nat list \<Rightarrow> int \<Rightarrow> real \<Rightarrow> string list \<Rightarrow> 'x run_state
     \<Rightarrow> error + 'x run_state" where
  "run_stages env x_orig x_inner y_orig bs startt [] st = Inr st"
| "run_stages env x_orig x_inner y_orig bs startt (attack # rest) st =
     (if count_true (robust_flags st) = 0 then Inr st
      else
        case run_stage env x_orig x_inner y_orig bs startt attack st of
          Inl e \<Rightarrow> Inl e
        | Inr st1 \<Rightarrow> run_stages env x_orig x_inner y_orig bs startt rest st1)"

text \<open>
  Lines 184-191: the final check. \<open>res\<close> is bound only for the two norms. The numbers
  printed are computed from the samples by the tensor library and are left out.
\<close>

definition final_check :: "'x run_state \<Rightarrow> error + 'x run_state" where
  "final_check st =
     (if verbose (obj st)
      then
        if norm_family (obj st) = ''Linf'' \<or> norm_family (obj st) = ''L2''
        then Inr (st\<lparr>world := print (RobustAccuracy (robust_accuracy st))
                                 (print (MaxPerturbation (norm_family (obj st))) (world st))\<rparr>)
        else Inl UnboundLocalError
      else Inr st)"

text \<open>
  \<open>run_standard_evaluation\<close> (lines 69-193). The value returned to the caller is
  \<open>x_adv\<close> of the final state.
\<close>

definition run_standard_evaluation ::
  "('x, 'l) env \<Rightarrow> autoattack \<Rightarrow> 'x world \<Rightarrow> 'x list \<Rightarrow> nat list \<Rightarrow> nat list \<Rightarrow> int
     \<Rightarrow> error + 'x run_state" where
  "run_standard_evaluation env self w x_orig x_inner y_orig bs =
     (case reconcile self of
        Inl e \<Rightarrow> Inl e
      | Inr self1 \<Rightarrow>
          (case initial_pass env self1 w x_orig x_inner y_orig bs of
             Inl e \<Rightarrow> Inl e
           | Inr (startt, st0) \<Rightarrow>
               (case attacks_to_run self1 of
                  None \<Rightarrow> Inl TypeError
                | Some plan \<Rightarrow>
                    (case run_stages env x_orig x_inner y_orig bs startt plan st0 of
                       Inl e \<Rightarrow> Inl e
                     | Inr st1 \<Rightarrow> final_check st1))))"

subsection \<open>clean_accuracy\<close>

text \<open>
  Lines 195-207. \<open>acc\<close> starts as the Python float \<open>0.\<close> and becomes a tensor with the
  first batch; \<open>.item()\<close> exists on the tensor only. The count of correct predictions is
  kept as a natural number.
\<close>

definition clean_batch ::
  "('x, 'l) env \<Rightarrow> autoattack \<Rightarrow> 'x list \<Rightarrow> nat list \<Rightarrow> nat list \<Rightarrow> nat \<Rightarrow> nat \<Rightarrow> nat
     \<Rightarrow> error + nat" where
  "clean_batch env self x_orig x_inner y_orig bs counter acc =
     (let lo = counter * bs;
          hi = min ((counter + 1) * bs) (length x_orig);
          xr = take (hi - lo) (drop lo x_orig);
          x = \<lparr>shape = length xr # x_inner, rows = xr\<rparr>;
          y = take (hi - lo) (drop lo y_orig)
      in case predicted env self x of
           Inl e \<Rightarrow> Inl e
         | Inr p \<Rightarrow>
             (case tensor_eq p y of
                Inl e \<Rightarrow> Inl e
              | Inr eq \<Rightarrow> Inr (acc + count_true eq)))"

definition clean_accuracy ::
  "('x, 'l) env \<Rightarrow> autoattack \<Rightarrow> 'x world \<Rightarrow> 'x list \<Rightarrow> nat list \<Rightarrow> nat list \<Rightarrow> int
     \<Rightarrow> error + (real \<times> 'x world)" where
  "clean_accuracy env self w x_orig x_inner y_orig bs =
     (if bs = 0 then Inl ZeroDivisionError
      else
        let n_batches = nat (int (length x_orig) div bs)
        in case for_each (clean_batch env self x_orig x_inner y_orig (nat bs)) [0..<n_batches] 0 of
             Inl e \<Rightarrow> Inl e
           | Inr acc \<Rightarrow>
               if verbose self \<and> length x_orig = 0 then Inl ZeroDivisionError
               else
                 let w1 = (if verbose self
                           then print (CleanAccuracy (real acc / real (length x_orig))) w
                           else w)
                 in if n_batches = 0 then Inl AttributeError
                    else Inr (real acc / real (length x_orig), w1))"

subsection \<open>run_standard_evaluation_individual\<close>

text \<open>Lines 224-231, the body of the loop over the attacks, and lines 209-233.\<close>

definition individual_step ::
  "('x, 'l) env \<Rightarrow> 'x list \<Rightarrow> nat list \<Rightarrow> nat list \<Rightarrow> int \<Rightarrow> bool \<Rightarrow> string
     \<Rightarrow> autoattack \<times> 'x world \<times> (string \<rightharpoonup> 'x list)
     \<Rightarrow> error + (autoattack \<times> 'x world \<times> (string \<rightharpoonup> 'x list))" where
  "individual_step env x_orig x_inner y_orig bs verbose_indiv c s =
     (case s of
        (self, w, adv) \<Rightarrow>
          let (startt, w1) = time_time env w;
              self1 = self\<lparr>attacks_to_run := Some [c]\<rparr>
          in case run_standard_evaluation env self1 w1 x_orig x_inner y_orig bs of
               Inl e \<Rightarrow> Inl e
             | Inr st \<Rightarrow>
                 if verbose_indiv
                 then
                   (case clean_accuracy env (obj st) (world st) (x_adv st) x_inner y_orig bs of
                      Inl e \<Rightarrow> Inl e
                    | Inr (acc_indiv, w2) \<Rightarrow>
                        let (t, w3) = time_time env w2
                        in Inr (obj st, print (RobustAccuracyBy c acc_indiv (t - startt)) w3,
                                adv(c \<mapsto> x_adv st)))
                 else Inr (obj st, world st, adv(c \<mapsto> x_adv st)))"

definition run_standard_evaluation_individual ::
  "('x, 'l) env \<Rightarrow> autoattack \<Rightarrow> 'x world \<Rightarrow> 'x list \<Rightarrow> nat list \<Rightarrow> nat list \<Rightarrow> int
     \<Rightarrow> error + (autoattack \<times> 'x world \<times> (string \<rightharpoonup> 'x list))" where
  "run_standard_evaluation_individual env self w x_orig x_inner y_orig bs =
     (case (if plus_mode self
            then (case attacks_to_run self of
                    None \<Rightarrow> Inl TypeError
                  | Some l \<Rightarrow> Inr (self\<lparr>attacks_to_run := Some (extend_plus l)\<rparr>))
            else Inr self) of
        Inl e \<Rightarrow> Inl e
      | Inr self1 \<Rightarrow>
          let verbose_indiv = verbose self1;
              self2 = self1\<lparr>plus_mode := False, verbose := False\<rparr>
          in case attacks_to_run self2 of
               None \<Rightarrow> Inl TypeError
             | Some l_attacks \<Rightarrow>
                 for_each (individual_step env x_orig x_inner y_orig bs verbose_indiv) l_attacks
                   (self2, w, Map.empty))"

subsection \<open>The dispatch as a table\<close>

text \<open>
  The six branches of the dispatch side by side, for the proofs: the adapter a branch
  calls and what it sets before the call. \<open>run_attack_table\<close> below shows that this is
  what \<open>run_attack\<close> does.
\<close>

datatype branch = ApgdCe | ApgdDlr | FabUntargeted | SquareAttack | ApgdT | FabT

definition branch_of :: "string \<Rightarrow> branch option" where
  "branch_of attack =
     (if attack = ''apgd-ce'' then Some ApgdCe
      else if attack = ''apgd-dlr'' then Some ApgdDlr
      else if attack = ''fab'' then Some FabUntargeted
      else if attack = ''square'' then Some SquareAttack
      else if attack = ''apgd-t'' then Some ApgdT
      else if attack = ''fab-t'' then Some FabT
      else None)"

fun adapter_of :: "branch \<Rightarrow> adapter_id" where
  "adapter_of ApgdCe = Apgd"
| "adapter_of ApgdDlr = Apgd"
| "adapter_of FabUntargeted = Fab"
| "adapter_of SquareAttack = Square"
| "adapter_of ApgdT = ApgdTargeted"
| "adapter_of FabT = Fab"

fun configure :: "branch \<Rightarrow> real \<Rightarrow> autoattack \<Rightarrow> autoattack" where
  "configure ApgdCe s self = self\<lparr>apgd := (apgd self)\<lparr>loss := Some ''ce'', adapter_seed := Some s\<rparr>\<rparr>"
| "configure ApgdDlr s self = self\<lparr>apgd := (apgd self)\<lparr>loss := Some ''dlr'', adapter_seed := Some s\<rparr>\<rparr>"
| "configure FabUntargeted s self =
     self\<lparr>fab := (fab self)\<lparr>targeted := Some False, adapter_seed := Some s\<rparr>\<rparr>"
| "configure SquareAttack s self = self\<lparr>square := (square self)\<lparr>adapter_seed := Some s\<rparr>\<rparr>"
| "configure ApgdT s self = self\<lparr>apgd_targeted := (apgd_targeted self)\<lparr>adapter_seed := Some s\<rparr>\<rparr>"
| "configure FabT s self = self\<lparr>fab := (fab self)\<lparr>targeted := Some True, adapter_seed := Some s\<rparr>\<rparr>"

fun adapter_in :: "adapter_id \<Rightarrow> autoattack \<Rightarrow> adapter" where
  "adapter_in Apgd self = apgd self"
| "adapter_in Fab self = fab self"
| "adapter_in Square self = square self"
| "adapter_in ApgdTargeted self = apgd_targeted self"

subsection \<open>Predicates of the properties\<close>

text \<open>The identifiers the dispatch of lines 129-161 knows.\<close>

definition known_attacks :: "string list" where
  "known_attacks = [''apgd-ce'', ''apgd-dlr'', ''fab'', ''square'', ''apgd-t'', ''fab-t'']"

text \<open>
  Every sample that still counts as robust has its original input as adversarial
  example (and both vectors have one entry per sample).
\<close>

definition consistent :: "'x list \<Rightarrow> 'x run_state \<Rightarrow> bool" where
  "consistent x_orig st =
     (length (robust_flags st) = length x_orig \<and> length (x_adv st) = length x_orig \<and>
      list_all (\<lambda>i. robust_flags st ! i \<longrightarrow> x_adv st ! i = x_orig ! i) [0..<length x_orig])"

text \<open>No flag that is off in \<open>old\<close> is on in \<open>new\<close>.\<close>

definition flags_below :: "bool list \<Rightarrow> bool list \<Rightarrow> bool" where
  "flags_below new old =
     (length new = length old \<and> list_all (\<lambda>i. new ! i \<longrightarrow> old ! i) [0..<length old])"





text \<open>The second object has the fields of the first that do not belong to an adapter.\<close>

definition same_fields :: "autoattack \<Rightarrow> autoattack \<Rightarrow> bool" where
  "same_fields a b =
     (norm_family b = norm_family a \<and> epsilon b = epsilon a \<and> seed b = seed a \<and>
      verbose b = verbose a \<and> attacks_to_run b = attacks_to_run a \<and>
      plus_mode b = plus_mode a \<and> is_tf_model b = is_tf_model a \<and> device b = device a)"

text \<open>A state that keeps the fields of an object and, when quiet, the printed lines.\<close>

definition framed :: "autoattack \<Rightarrow> diag list \<Rightarrow> 'x run_state \<Rightarrow> bool" where
  "framed self printed st =
     (same_fields self (obj st) \<and> (\<not> verbose self \<longrightarrow> out (world st) = printed))"

subsection \<open>A small model, attacks and sample set to run the definitions on\<close>

text \<open>
  Samples are numbers and the class of a sample is its last digit; the model answers
  one class for each element of its input along dimension 0. The gradient attack raises
  every sample from 100 on by one, the boundary attack every sample from 50 on, the
  targeted gradient attack every sample; the black-box attack changes nothing. Every
  attack returns a tensor of the shape of its input.
\<close>

definition demo_threshold :: "adapter_id \<Rightarrow> nat" where
  "demo_threshold a = (case a of Apgd \<Rightarrow> 100 | Fab \<Rightarrow> 50 | Square \<Rightarrow> 1000 | ApgdTargeted \<Rightarrow> 0)"

definition demo_env :: "(nat, nat list) env" where
  "demo_env =
     \<lparr>model_call = (\<lambda>x. Inr (map (\<lambda>v. v mod 10) (take (hd (shape x)) (rows x)))),
      model_predict = (\<lambda>x. Inr (map (\<lambda>v. v mod 10) (take (hd (shape x)) (rows x)))),
      max_dim1 = (\<lambda>l. l),
      perturb = (\<lambda>a cfg x y. Inr (x\<lparr>rows := map (\<lambda>v. if demo_threshold a \<le> v then v + 1 else v) (rows x)\<rparr>)),
      broadcast_entry = (\<lambda>adv msk j. hd (rows adv)),
      clock = real\<rparr>"

definition demo_world :: "nat world" where
  "demo_world = \<lparr>calls = [], out = [], ticks = 0\<rparr>"

definition demo_self :: autoattack where
  "demo_self =
     \<lparr>norm_family = ''Linf'', epsilon = 3 / 10, seed = Some 0, verbose = False,
      attacks_to_run = Some default_attacks_to_run,
      plus_mode = False, is_tf_model = False, device = ''cuda'',
      apgd = \<lparr>n_restarts = 5, n_queries = None, loss = None, targeted = None, adapter_seed = Some 0\<rparr>,
      fab = \<lparr>n_restarts = 5, n_queries = None, loss = None, targeted = None, adapter_seed = Some 0\<rparr>,
      square = \<lparr>n_restarts = 1, n_queries = Some 5000, loss = None, targeted = None,
                adapter_seed = Some 0\<rparr>,
      apgd_targeted = \<lparr>n_restarts = 1, n_queries = None, loss = None, targeted = None,
                       adapter_seed = Some 0\<rparr>\<rparr>"

text \<open>
  The object with the gradient attack as the only stage, and the state after its clean
  pass over the samples 13 and 107.
\<close>

definition demo_one :: autoattack where
  "demo_one = demo_self\<lparr>attacks_to_run := Some [''apgd-ce'']\<rparr>"

definition demo_st0 :: "nat run_state" where
  "demo_st0 =
     \<lparr>obj = demo_one, world = demo_world\<lparr>ticks := 1\<rparr>, robust_flags = [True, True],
      x_adv = [13, 107], robust_accuracy = 1\<rparr>"

text \<open>
  The object with the gradient and the boundary attack as stages, and the state after
  its clean pass over the samples 107 and 205.
\<close>

definition demo_two :: autoattack where
  "demo_two = demo_self\<lparr>attacks_to_run := Some [''apgd-ce'', ''fab'']\<rparr>"

definition demo_st0_two :: "nat run_state" where
  "demo_st0_two =
     \<lparr>obj = demo_two, world = demo_world\<lparr>ticks := 1\<rparr>, robust_flags = [True, True],
      x_adv = [107, 205], robust_accuracy = 1\<rparr>"

text \<open>The object with an identifier the dispatch does not know as second stage.\<close>

definition demo_unknown :: autoattack where
  "demo_unknown = demo_self\<lparr>attacks_to_run := Some [''apgd-ce'', ''foo'']\<rparr>"

text \<open>The object of the individual runs: both modes on, the gradient attack configured.\<close>

definition demo_plus :: autoattack where
  "demo_plus = demo_self\<lparr>verbose := True, plus_mode := True, attacks_to_run := Some [''apgd-ce'']\<rparr>"

section \<open>Properties\<close>

subsection \<open>Loops and index updates\<close>

lemma for_each_invariant:
  assumes "for_each f xs s = Inr s'" and "P s"
    and "\<And>a t t'. P t \<Longrightarrow> f a t = Inr t' \<Longrightarrow> P t'"
  shows "P s'"
  using assms(1,2)
proof (induction xs arbitrary: s)
  case Nil
  then show ?case by simp
next
  case (Cons a xs)
  then show ?case
    by (auto split: sum.splits intro: assms(3))
qed

lemma for_each_append:
  "for_each f (xs @ ys) s = (case for_each f xs s of Inl e \<Rightarrow> Inl e | Inr t \<Rightarrow> for_each f ys t)"
  by (induction xs arbitrary: s) (auto split: sum.splits)

lemma length_index_fill: "length (index_fill flags idxs v) = length flags"
  by (induction idxs arbitrary: flags) auto

lemma nth_index_fill:
  "i < length flags \<Longrightarrow> index_fill flags idxs False ! i = (flags ! i \<and> i \<notin> set idxs)"
proof (induction idxs arbitrary: flags)
  case Nil
  then show ?case by simp
next
  case (Cons j idxs)
  then show ?case
    by (cases "i = j") auto
qed

lemma length_index_put: "length (index_put xs idxs vs) = length xs"
  by (induction xs idxs vs rule: index_put.induct) auto

lemma nth_index_put_other: "i \<notin> set idxs \<Longrightarrow> index_put xs idxs vs ! i = xs ! i"
  by (induction xs idxs vs rule: index_put.induct) auto

lemma attack_batch_updates:
  assumes "attack_batch env x_orig x_inner y_orig bsn attack idcs num_robust n_batches batch_idx st = Inr st'"
  shows "\<exists>idxs vs. robust_flags st' = index_fill (robust_flags st) idxs False
            \<and> x_adv st' = index_put (x_adv st) idxs vs
            \<and> robust_accuracy st' = robust_accuracy st"
  using assms unfolding attack_batch_def Let_def
  by (auto split: sum.splits prod.splits if_splits intro!: exI)

lemma mask_select_iff:
  "i \<in> set (mask_select xs msk) \<longleftrightarrow> (\<exists>j. j < length xs \<and> j < length msk \<and> xs ! j = i \<and> msk ! j)"
proof
  assume "i \<in> set (mask_select xs msk)"
  then obtain m where "(i, m) \<in> set (zip xs msk)" and "m"
    unfolding mask_select_def by auto
  then show "\<exists>j. j < length xs \<and> j < length msk \<and> xs ! j = i \<and> msk ! j"
    by (auto simp: in_set_zip)
next
  assume "\<exists>j. j < length xs \<and> j < length msk \<and> xs ! j = i \<and> msk ! j"
  then obtain j where j: "j < length xs" "j < length msk" "xs ! j = i" "msk ! j"
    by blast
  then have "(i, True) \<in> set (zip xs msk)"
    by (auto simp: in_set_zip intro!: exI[of _ j])
  then have "(i, True) \<in> set (filter snd (zip xs msk))"
    by simp
  then show "i \<in> set (mask_select xs msk)"
    unfolding mask_select_def by force
qed

lemma attack_batch_only_probe:
  assumes "attack_batch env x_orig x_inner y_orig bsn attack idcs num_robust n_batches batch_idx st = Inr st'"
  shows "\<exists>b x y adv_curr self1 w1 p eq vs.
           sub_batch x_orig x_inner y_orig bsn idcs num_robust batch_idx = Inr (b, x, y) \<and>
           run_attack env attack x y (obj st) (world st) = Inr (adv_curr, self1, w1) \<and>
           predicted env self1 adv_curr = Inr p \<and>
           tensor_eq (rows y) p = Inr eq \<and>
           robust_flags st' = index_fill (robust_flags st) (mask_select (rows b) (map Not eq)) False \<and>
           x_adv st' = index_put (x_adv st) (mask_select (rows b) (map Not eq)) vs"
  using assms unfolding attack_batch_def Let_def
  by (auto split: sum.splits prod.splits if_splits)

subsection \<open>Robust samples keep their inputs\<close>

lemma consistent_iff:
  "consistent x_orig st \<longleftrightarrow>
     length (robust_flags st) = length x_orig \<and> length (x_adv st) = length x_orig \<and>
     (\<forall>i<length x_orig. robust_flags st ! i \<longrightarrow> x_adv st ! i = x_orig ! i)"
  by (auto simp: consistent_def list_all_iff)

lemma attack_batch_consistent:
  assumes "attack_batch env x_orig x_inner y_orig bsn attack idcs num_robust n_batches batch_idx st = Inr st'"
    and "consistent x_orig st"
  shows "consistent x_orig st'"
proof -
  obtain idxs vs where f: "robust_flags st' = index_fill (robust_flags st) idxs False"
    and x: "x_adv st' = index_put (x_adv st) idxs vs"
    using attack_batch_updates[OF assms(1)] by blast
  show ?thesis
    using assms(2) unfolding consistent_iff f x
    by (auto simp: length_index_fill length_index_put nth_index_fill nth_index_put_other)
qed

lemma attack_batch_overwrites:
  assumes "attack_batch env x_orig x_inner y_orig bsn attack idcs num_robust n_batches batch_idx st = Inr st'"
    and "i < length (robust_flags st)" and "x_adv st' ! i \<noteq> x_adv st ! i"
  shows "\<not> robust_flags st' ! i"
proof -
  obtain idxs vs where f: "robust_flags st' = index_fill (robust_flags st) idxs False"
    and x: "x_adv st' = index_put (x_adv st) idxs vs"
    using attack_batch_updates[OF assms(1)] by blast
  show ?thesis
    using assms(2,3) nth_index_put_other[of i idxs "x_adv st" vs] unfolding f x
    by (auto simp: nth_index_fill)
qed

lemma attack_batch_flags:
  assumes "attack_batch env x_orig x_inner y_orig bsn attack idcs num_robust n_batches batch_idx st = Inr st'"
  shows "length (robust_flags st') = length (robust_flags st)"
    and "i < length (robust_flags st) \<Longrightarrow> robust_flags st' ! i \<Longrightarrow> robust_flags st ! i"
proof -
  obtain idxs vs where f: "robust_flags st' = index_fill (robust_flags st) idxs False"
    using attack_batch_updates[OF assms(1)] by blast
  show "length (robust_flags st') = length (robust_flags st)"
    by (simp add: f length_index_fill)
  show "i < length (robust_flags st) \<Longrightarrow> robust_flags st' ! i \<Longrightarrow> robust_flags st ! i"
    by (simp add: f nth_index_fill)
qed

text \<open>What a stage does after its batches touches neither the flags nor the examples.\<close>

lemma run_stage_batches:
  assumes "run_stage env x_orig x_inner y_orig bs startt attack st = Inr st'"
  shows "\<exists>t. for_each
               (attack_batch env x_orig x_inner y_orig (nat bs) attack
                  (if count_true (robust_flags st) > 1 then squeeze (nonzero (robust_flags st))
                   else nonzero (robust_flags st))
                  (count_true (robust_flags st)) (n_batches_of (count_true (robust_flags st)) bs))
               [0..<n_batches_of (count_true (robust_flags st)) bs] st = Inr t
             \<and> robust_flags st' = robust_flags t \<and> x_adv st' = x_adv t \<and> obj st' = obj t
             \<and> calls (world st') = calls (world t)"
  using assms unfolding run_stage_def stage_report_def Let_def
  by (auto split: sum.splits if_splits prod.splits simp: time_time_def print_def)

lemma run_stage_consistent:
  assumes "run_stage env x_orig x_inner y_orig bs startt attack st = Inr st'"
    and "consistent x_orig st"
  shows "consistent x_orig st'"
proof -
  obtain t where t: "for_each
               (attack_batch env x_orig x_inner y_orig (nat bs) attack
                  (if count_true (robust_flags st) > 1 then squeeze (nonzero (robust_flags st))
                   else nonzero (robust_flags st))
                  (count_true (robust_flags st)) (n_batches_of (count_true (robust_flags st)) bs))
               [0..<n_batches_of (count_true (robust_flags st)) bs] st = Inr t"
    and eq: "robust_flags st' = robust_flags t" "x_adv st' = x_adv t"
    using run_stage_batches[OF assms(1)] by blast
  have "consistent x_orig t"
    by (rule for_each_invariant[where P = "consistent x_orig", OF t assms(2)])
      (rule attack_batch_consistent)
  then show ?thesis
    by (simp add: consistent_iff eq)
qed

lemma run_stages_consistent:
  "run_stages env x_orig x_inner y_orig bs startt plan st = Inr st' \<Longrightarrow> consistent x_orig st
     \<Longrightarrow> consistent x_orig st'"
proof (induction plan arbitrary: st)
  case Nil
  then show ?case by simp
next
  case (Cons attack rest)
  then show ?case
    by (auto split: if_splits sum.splits dest: run_stage_consistent)
qed

lemma slice_assign_length:
  assumes "slice_assign flags lo hi v = Inr flags'"
  shows "length flags' = length flags"
proof -
  let ?n = "length (take (hi - lo) (drop lo flags))"
  have n: "?n \<le> length flags - lo"
    by simp
  from assms have "length flags' = length (take lo flags) + ?n + length (drop (lo + ?n) flags)"
    unfolding slice_assign_def Let_def by (auto split: if_splits)
  also have "\<dots> = length flags"
    using n by (simp add: min_def)
  finally show ?thesis .
qed

lemma probe_batch_length:
  assumes "probe_batch env self x_orig x_inner y_orig bsn batch_idx flags = Inr flags'"
    and "length flags = length x_orig"
  shows "length flags' = length x_orig"
proof -
  from assms(1) obtain lo hi v where "slice_assign flags lo hi v = Inr flags'"
    unfolding probe_batch_def Let_def by (auto split: sum.splits if_splits)
  from slice_assign_length[OF this] assms(2) show ?thesis
    by simp
qed

lemma initial_pass_state:
  assumes "initial_pass env self w x_orig x_inner y_orig bs = Inr (startt, st0)"
  shows "x_adv st0 = x_orig" and "length (robust_flags st0) = length x_orig" and "obj st0 = self"
    and "calls (world st0) = calls w" and "bs \<noteq> 0" and "x_orig \<noteq> []"
proof -
  obtain flags where fl: "for_each (probe_batch env self x_orig x_inner y_orig (nat bs))
               [0..<n_batches_of (length x_orig) bs] (replicate (length x_orig) False) = Inr flags"
    and st0: "robust_flags st0 = flags" "x_adv st0 = x_orig" "obj st0 = self"
      "calls (world st0) = calls w" "bs \<noteq> 0" "x_orig \<noteq> []"
    using assms unfolding initial_pass_def Let_def
    by (auto split: sum.splits if_splits prod.splits simp: time_time_def print_def)
  have "length flags = length x_orig"
    by (rule for_each_invariant[where P = "\<lambda>f. length f = length x_orig", OF fl])
      (simp_all add: probe_batch_length)
  then show "length (robust_flags st0) = length x_orig" by (simp add: st0)
  show "x_adv st0 = x_orig" "obj st0 = self" "calls (world st0) = calls w" "bs \<noteq> 0" "x_orig \<noteq> []"
    by (simp_all add: st0)
qed

lemma initial_pass_consistent:
  assumes "initial_pass env self w x_orig x_inner y_orig bs = Inr (startt, st0)"
  shows "consistent x_orig st0"
  using initial_pass_state(1,2)[OF assms] by (simp add: consistent_iff)

lemma final_check_state:
  assumes "final_check st = Inr st'"
  shows "robust_flags st' = robust_flags st" and "x_adv st' = x_adv st" and "obj st' = obj st"
    and "calls (world st') = calls (world st)" and "robust_accuracy st' = robust_accuracy st"
  using assms unfolding final_check_def
  by (auto split: if_splits simp: print_def)

lemma run_standard_evaluation_parts:
  assumes "run_standard_evaluation env self w x_orig x_inner y_orig bs = Inr st"
  shows "\<exists>self1 startt st0 plan st1.
           reconcile self = Inr self1 \<and>
           initial_pass env self1 w x_orig x_inner y_orig bs = Inr (startt, st0) \<and>
           attacks_to_run self1 = Some plan \<and>
           run_stages env x_orig x_inner y_orig bs startt plan st0 = Inr st1 \<and>
           final_check st1 = Inr st"
  using assms unfolding run_standard_evaluation_def
  by (auto split: sum.splits option.splits prod.splits)

lemma run_standard_evaluation_consistent:
  assumes "run_standard_evaluation env self w x_orig x_inner y_orig bs = Inr st"
  shows "consistent x_orig st"
proof -
  obtain self1 startt st0 plan st1 where
    i: "initial_pass env self1 w x_orig x_inner y_orig bs = Inr (startt, st0)"
    and r: "run_stages env x_orig x_inner y_orig bs startt plan st0 = Inr st1"
    and f: "final_check st1 = Inr st"
    using run_standard_evaluation_parts[OF assms] by blast
  have "consistent x_orig st1"
    using run_stages_consistent[OF r initial_pass_consistent[OF i]] .
  then show ?thesis
    by (simp add: consistent_iff final_check_state[OF f])
qed

subsection \<open>Flags only go off\<close>

lemma flags_below_iff:
  "flags_below new old \<longleftrightarrow> length new = length old \<and> (\<forall>i<length old. new ! i \<longrightarrow> old ! i)"
  by (auto simp: flags_below_def list_all_iff)

lemma flags_below_refl: "flags_below f f"
  by (simp add: flags_below_iff)

lemma flags_below_trans: "flags_below c b \<Longrightarrow> flags_below b a \<Longrightarrow> flags_below c a"
  by (auto simp: flags_below_iff)

lemma attack_batch_below:
  assumes "attack_batch env x_orig x_inner y_orig bsn attack idcs num_robust n_batches batch_idx st = Inr st'"
  shows "flags_below (robust_flags st') (robust_flags st)"
  using attack_batch_flags[OF assms] by (auto simp: flags_below_iff)

lemma run_stage_below:
  assumes "run_stage env x_orig x_inner y_orig bs startt attack st = Inr st'"
  shows "flags_below (robust_flags st') (robust_flags st)"
proof -
  obtain t where t: "for_each
               (attack_batch env x_orig x_inner y_orig (nat bs) attack
                  (if count_true (robust_flags st) > 1 then squeeze (nonzero (robust_flags st))
                   else nonzero (robust_flags st))
                  (count_true (robust_flags st)) (n_batches_of (count_true (robust_flags st)) bs))
               [0..<n_batches_of (count_true (robust_flags st)) bs] st = Inr t"
    and eq: "robust_flags st' = robust_flags t"
    using run_stage_batches[OF assms(1)] by blast
  have "flags_below (robust_flags t) (robust_flags st)"
    by (rule for_each_invariant[where P = "\<lambda>u. flags_below (robust_flags u) (robust_flags st)", OF t])
      (auto intro: flags_below_refl flags_below_trans attack_batch_below)
  then show ?thesis
    by (simp add: eq)
qed

lemma run_stages_below:
  "run_stages env x_orig x_inner y_orig bs startt plan st = Inr st'
     \<Longrightarrow> flags_below (robust_flags st') (robust_flags st)"
proof (induction plan arbitrary: st)
  case Nil
  then show ?case by (simp add: flags_below_refl)
next
  case (Cons attack rest)
  then show ?case
    by (auto split: if_splits sum.splits
        intro: flags_below_refl flags_below_trans dest: run_stage_below)
qed

lemma run_stages_none_robust:
  "count_true (robust_flags st) = 0 \<Longrightarrow> run_stages env x_orig x_inner y_orig bs startt plan st = Inr st"
  by (cases plan) simp_all

lemma run_stages_append:
  "run_stages env x_orig x_inner y_orig bs startt (pre @ rest) st =
     (case run_stages env x_orig x_inner y_orig bs startt pre st of
        Inl e \<Rightarrow> Inl e
      | Inr st1 \<Rightarrow> run_stages env x_orig x_inner y_orig bs startt rest st1)"
proof (induction pre arbitrary: st)
  case Nil
  then show ?case by simp
next
  case (Cons attack pre)
  then show ?case
    by (auto split: sum.splits simp: run_stages_none_robust)
qed

lemma flags_belowD:
  "flags_below new old \<Longrightarrow> i < length old \<Longrightarrow> \<not> old ! i \<Longrightarrow> \<not> new ! i"
  by (auto simp: flags_below_iff)

subsection \<open>The number of batches\<close>

text \<open>The number of batches is the rounded-up quotient the source computes.\<close>

lemma n_batches_of_ceiling: "n_batches_of n bs = nat \<lceil>real n / real_of_int bs\<rceil>"
proof -
  have "- (real n / real_of_int bs) = real_of_int (- int n) / real_of_int bs"
    by simp
  then have "\<lfloor>- (real n / real_of_int bs)\<rfloor> = (- int n) div bs"
    by (simp only: floor_divide_of_int_eq)
  then show ?thesis
    by (simp add: n_batches_of_def ceiling_def)
qed

lemma n_batches_of_neg: "bs < 0 \<Longrightarrow> n_batches_of n bs = 0"
  unfolding n_batches_of_def using neg_imp_zdiv_nonneg_iff[of bs "- int n"] by simp

lemma n_batches_of_pos:
  assumes "0 < bs"
  shows "n_batches_of n bs = (if n mod nat bs = 0 then n div nat bs else Suc (n div nat bs))"
proof -
  obtain b where b: "bs = int b" "0 < b"
    using assms by (metis nat_0_le of_nat_0_less_iff order_less_imp_le)
  have "(- int n) div int b =
          (if int n mod int b = 0 then - (int n div int b) else - (int n div int b) - 1)"
    using b(2) by (simp add: zdiv_zminus1_eq_if)
  then have "- ((- int n) div int b) = (if n mod b = 0 then int (n div b) else int (Suc (n div b)))"
    by (simp flip: of_nat_mod of_nat_div)
  then show ?thesis
    unfolding n_batches_of_def b by (simp del: of_nat_Suc)
qed

lemma n_batches_of_upper:
  assumes "0 < bs"
  shows "n \<le> n_batches_of n bs * nat bs"
proof (cases "n mod nat bs = 0")
  case True
  then have "n div nat bs * nat bs = n" by (simp add: mod_eq_0_iff_dvd)
  then show ?thesis by (simp add: n_batches_of_pos[OF assms] True)
next
  case False
  have "n mod nat bs < nat bs" using assms by simp
  moreover have "n div nat bs * nat bs + n mod nat bs = n" by simp
  ultimately have "n \<le> n div nat bs * nat bs + nat bs" by linarith
  then show ?thesis by (simp add: n_batches_of_pos[OF assms] False)
qed

lemma n_batches_of_lower:
  assumes "0 < bs" and "a < n_batches_of n bs"
  shows "a * nat bs < n"
proof (cases "n mod nat bs = 0")
  case True
  from assms(2) have "Suc a \<le> n div nat bs"
    by (simp add: n_batches_of_pos[OF assms(1)] True)
  then have "Suc a * nat bs \<le> n div nat bs * nat bs" by (rule mult_le_mono1)
  also have "\<dots> = n" using True by (simp add: mod_eq_0_iff_dvd)
  finally show ?thesis using assms(1) by simp
next
  case False
  from assms(2) have "a \<le> n div nat bs"
    by (simp add: n_batches_of_pos[OF assms(1)] False)
  then have "a * nat bs \<le> n div nat bs * nat bs" by (rule mult_le_mono1)
  moreover have "n div nat bs * nat bs + n mod nat bs = n" by simp
  moreover have "0 < n mod nat bs" using False by simp
  ultimately show ?thesis by linarith
qed

lemma n_batches_of_positive: "0 < bs \<Longrightarrow> 0 < n \<Longrightarrow> 0 < n_batches_of n bs"
  using n_batches_of_upper[of bs n] by (cases "n_batches_of n bs") simp_all

subsection \<open>A clean pass that succeeds\<close>

lemma for_each_member:
  assumes "for_each f xs s = Inr s'" and "P s"
    and "\<And>a t t'. P t \<Longrightarrow> f a t = Inr t' \<Longrightarrow> P t'"
    and "a \<in> set xs"
  shows "\<exists>t t'. P t \<and> f a t = Inr t'"
  using assms(1,2,4)
proof (induction xs arbitrary: s)
  case Nil
  then show ?case by simp
next
  case (Cons b xs)
  from Cons.prems(1) obtain u where u: "f b s = Inr u" "for_each f xs u = Inr s'"
    by (auto split: sum.splits)
  show ?case
  proof (cases "a = b")
    case True
    with u Cons.prems(2) show ?thesis by blast
  next
    case False
    with Cons.prems(3) have "a \<in> set xs" by simp
    moreover have "P u" using assms(3)[OF Cons.prems(2) u(1)] .
    ultimately show ?thesis using Cons.IH[OF u(2)] by blast
  qed
qed

lemma probe_batch_ok:
  assumes "probe_batch env self x_orig x_inner y_orig bsn b flags = Inr flags'"
  shows "x_inner \<noteq> []"
  using assms unfolding probe_batch_def Let_def by (auto split: if_splits)

lemma initial_pass_positive:
  assumes "initial_pass env self w x_orig x_inner y_orig bs = Inr (startt, st0)" and "0 < bs"
  shows "x_inner \<noteq> []"
proof -
  let ?n = "n_batches_of (length x_orig) bs"
  have ne: "x_orig \<noteq> []" using initial_pass_state(6)[OF assms(1)] .
  obtain flags where fl: "for_each (probe_batch env self x_orig x_inner y_orig (nat bs))
               [0..<?n] (replicate (length x_orig) False) = Inr flags"
    using assms(1) unfolding initial_pass_def Let_def
    by (auto split: sum.splits if_splits prod.splits)
  have pos: "0 < ?n" using n_batches_of_positive[OF assms(2)] ne by simp
  then have "?n - 1 \<in> set [0..<?n]" by simp
  from for_each_member[where P = "\<lambda>f. length f = length x_orig", OF fl _ _ this]
  obtain t t' where t: "length t = length x_orig"
    "probe_batch env self x_orig x_inner y_orig (nat bs) (?n - 1) t = Inr t'"
    by (auto simp: probe_batch_length)
  show "x_inner \<noteq> []" using probe_batch_ok[OF t(2)] .
qed

lemma count_true_0_iff: "count_true flags = 0 \<longleftrightarrow> (\<forall>i<length flags. \<not> flags ! i)"
  by (auto simp: count_true_def filter_empty_conv in_set_conv_nth)

lemma flags_below_count:
  "flags_below new old \<Longrightarrow> count_true old = 0 \<Longrightarrow> count_true new = 0"
  by (auto simp: count_true_0_iff flags_below_iff)

lemma initial_pass_negative:
  assumes "initial_pass env self w x_orig x_inner y_orig bs = Inr (startt, st0)" and "bs < 0"
  shows "count_true (robust_flags st0) = 0"
  using assms unfolding initial_pass_def Let_def
  by (auto simp: n_batches_of_neg count_true_def split: if_splits prod.splits)

subsection \<open>The dispatch\<close>

lemma nonzero_rows_bound: "list_all (\<lambda>i. i < length flags) (rows (nonzero flags))"
  by (simp add: nonzero_def list_all_iff)

lemma slice0_ok:
  assumes "shape t \<noteq> []"
  shows "\<exists>r. slice0 t lo hi = Inr r \<and> set (rows r) \<subseteq> set (rows t)"
  using assms unfolding slice0_def Let_def
  by (cases "shape t") (auto dest: in_set_takeD in_set_dropD)

lemma sub_batch_ok:
  assumes "shape idcs \<noteq> []" and "list_all (\<lambda>i. i < length x_orig) (rows idcs)"
    and "length x_orig \<le> length y_orig" and "x_inner \<noteq> []"
  shows "\<exists>r. sub_batch x_orig x_inner y_orig bsn idcs num_robust batch_idx = Inr r"
proof -
  obtain r where r: "slice0 idcs (batch_idx * bsn) (min ((batch_idx + 1) * bsn) num_robust) = Inr r"
    "set (rows r) \<subseteq> set (rows idcs)"
    using slice0_ok[OF assms(1)] by blast
  have "list_all (\<lambda>i. i < length x_orig) (rows r)" "list_all (\<lambda>i. i < length y_orig) (rows r)"
    using r(2) assms(2,3) by (fastforce simp: list_all_iff)+
  then show ?thesis
    using assms(4) r(1) unfolding sub_batch_def Let_def index_rows_def by simp
qed

lemma run_attack_table:
  "run_attack env attack x y self w =
     (case branch_of attack of
        None \<Rightarrow> Inl (ValueError ''Attack not supported'')
      | Some k \<Rightarrow>
          (case perturb env (adapter_of k)
                  (adapter_in (adapter_of k) (configure k (fst (get_seed env self w)) self)) x y of
             Inl e \<Rightarrow> Inl e
           | Inr adv_curr \<Rightarrow>
               Inr (adv_curr, configure k (fst (get_seed env self w)) self,
                    (snd (get_seed env self w))
                      \<lparr>calls := calls (snd (get_seed env self w)) @
                         [(adapter_of k,
                           adapter_in (adapter_of k) (configure k (fst (get_seed env self w)) self),
                           x, y)]\<rparr>)))"
  unfolding run_attack_def branch_of_def call_perturb_def
  by (simp add: split_beta Let_def split: sum.splits)


lemma get_seed_out: "out (snd (get_seed env self w)) = out w"
  by (simp add: get_seed_def time_time_def split: option.splits)



lemma configure_fields:
  "seed (configure k s a) = seed a" "norm_family (configure k s a) = norm_family a"
  "epsilon (configure k s a) = epsilon a" "verbose (configure k s a) = verbose a"
  "attacks_to_run (configure k s a) = attacks_to_run a" "plus_mode (configure k s a) = plus_mode a"
  "is_tf_model (configure k s a) = is_tf_model a" "device (configure k s a) = device a"
  by (cases k; simp)+

lemma run_attack_unknown:
  "attack \<notin> set known_attacks
     \<Longrightarrow> run_attack env attack x y self w = Inl (ValueError ''Attack not supported'')"
  by (simp add: run_attack_table branch_of_def known_attacks_def)

lemma run_stage_unknown:
  assumes "attack \<notin> set known_attacks" and "count_true (robust_flags st) \<noteq> 0" and "0 < bs"
    and "length (robust_flags st) = length x_orig" and "length x_orig \<le> length y_orig"
    and "x_inner \<noteq> []"
  shows "run_stage env x_orig x_inner y_orig bs startt attack st
           = Inl (ValueError ''Attack not supported'')"
proof -
  let ?c = "count_true (robust_flags st)"
  let ?idcs = "if ?c > 1 then squeeze (nonzero (robust_flags st)) else nonzero (robust_flags st)"
  let ?n = "n_batches_of ?c bs"
  have sh: "shape ?idcs \<noteq> []"
    by (simp add: squeeze_def nonzero_def)
  have rw: "list_all (\<lambda>i. i < length x_orig) (rows ?idcs)"
    using nonzero_rows_bound[of "robust_flags st"] by (simp add: squeeze_def assms(4))
  obtain r where r: "sub_batch x_orig x_inner y_orig (nat bs) ?idcs ?c 0 = Inr r"
    using sub_batch_ok[OF sh rw assms(5,6)] by blast
  have "attack_batch env x_orig x_inner y_orig (nat bs) attack ?idcs ?c ?n 0 st
          = Inl (ValueError ''Attack not supported'')"
    unfolding attack_batch_def r by (cases r) (simp add: run_attack_unknown[OF assms(1)])
  moreover have "[0..<?n] = 0 # [1..<?n]"
    using n_batches_of_positive[OF assms(3), of ?c] assms(2) by (simp add: upt_conv_Cons)
  ultimately have "for_each (attack_batch env x_orig x_inner y_orig (nat bs) attack ?idcs ?c ?n)
                     [0..<?n] st = Inl (ValueError ''Attack not supported'')"
    by simp
  then show ?thesis
    using assms(3) unfolding run_stage_def Let_def by simp
qed

lemma run_stage_unknown_raises:
  assumes "attack \<notin> set known_attacks" and "count_true (robust_flags st) \<noteq> 0" and "0 < bs"
  shows "\<exists>e. run_stage env x_orig x_inner y_orig bs startt attack st = Inl e"
proof -
  let ?c = "count_true (robust_flags st)"
  let ?idcs = "if ?c > 1 then squeeze (nonzero (robust_flags st)) else nonzero (robust_flags st)"
  let ?n = "n_batches_of ?c bs"
  have "\<exists>e. attack_batch env x_orig x_inner y_orig (nat bs) attack ?idcs ?c ?n 0 st = Inl e"
  proof (cases "sub_batch x_orig x_inner y_orig (nat bs) ?idcs ?c 0")
    case (Inl e)
    then show ?thesis unfolding attack_batch_def by simp
  next
    case (Inr r)
    then show ?thesis
      unfolding attack_batch_def by (cases r) (simp add: run_attack_unknown[OF assms(1)])
  qed
  then obtain e where "attack_batch env x_orig x_inner y_orig (nat bs) attack ?idcs ?c ?n 0 st = Inl e"
    by blast
  moreover have "[0..<?n] = 0 # [1..<?n]"
    using n_batches_of_positive[OF assms(3), of ?c] assms(2) by (simp add: upt_conv_Cons)
  ultimately have "for_each (attack_batch env x_orig x_inner y_orig (nat bs) attack ?idcs ?c ?n)
                     [0..<?n] st = Inl e"
    by simp
  then show ?thesis
    using assms(3) unfolding run_stage_def Let_def by simp
qed

subsection \<open>Two runs that differ in verbosity\<close>















subsection \<open>What a run leaves of the object and of the output\<close>

lemma same_fields_refl: "same_fields a a"
  by (simp add: same_fields_def)

lemma same_fields_trans: "same_fields a b \<Longrightarrow> same_fields b c \<Longrightarrow> same_fields a c"
  by (simp add: same_fields_def)

lemma configure_same_fields: "same_fields a (configure k s a)"
  by (simp add: same_fields_def configure_fields)

lemma run_attack_frame:
  assumes "run_attack env attack x y self w = Inr (adv, self1, w1)"
  shows "same_fields self self1 \<and> out w1 = out w"
proof (cases "branch_of attack")
  case None
  with assms show ?thesis by (simp add: run_attack_table)
next
  case (Some k)
  with assms show ?thesis
    unfolding run_attack_table
    by (auto simp: configure_same_fields get_seed_out split: sum.splits)
qed

lemma attack_batch_parts:
  assumes "attack_batch env x_orig x_inner y_orig bsn attack idcs num_robust n_batches batch_idx st
             = Inr st'"
  shows "\<exists>x y adv self1 w1.
           run_attack env attack x y (obj st) (world st) = Inr (adv, self1, w1) \<and>
           obj st' = self1 \<and>
           (if verbose self1 then \<exists>d. world st' = print d w1 else world st' = w1)"
proof -
  obtain r where r: "sub_batch x_orig x_inner y_orig bsn idcs num_robust batch_idx = Inr r"
    using assms unfolding attack_batch_def by (auto split: sum.splits)
  obtain b x y where rr: "r = (b, x, y)" by (cases r)
  obtain q where q: "run_attack env attack x y (obj st) (world st) = Inr q"
    using assms unfolding attack_batch_def r rr by (auto split: sum.splits)
  obtain adv self1 w1 where qq: "q = (adv, self1, w1)" by (cases q)
  have "obj st' = self1 \<and> (if verbose self1 then \<exists>d. world st' = print d w1 else world st' = w1)"
    using assms unfolding attack_batch_def Let_def
    by (auto simp: r rr q qq split: sum.splits if_splits)
  with q qq show ?thesis by blast
qed

lemma attack_batch_framed:
  assumes "attack_batch env x_orig x_inner y_orig bsn attack idcs num_robust n_batches batch_idx st
             = Inr st'"
    and "framed self printed st"
  shows "framed self printed st'"
proof -
  obtain x y adv self1 w1 where
    r: "run_attack env attack x y (obj st) (world st) = Inr (adv, self1, w1)"
    and o: "obj st' = self1"
    and w: "if verbose self1 then \<exists>d. world st' = print d w1 else world st' = w1"
    using attack_batch_parts[OF assms(1)] by blast
  have f: "same_fields (obj st) self1" "out w1 = out (world st)"
    using run_attack_frame[OF r] by simp_all
  have s: "same_fields self self1"
    using assms(2) f(1) by (auto simp: framed_def intro: same_fields_trans)
  then have v: "verbose self1 = verbose self"
    by (simp add: same_fields_def)
  have "\<not> verbose self \<longrightarrow> out (world st') = printed"
    using assms(2) w f(2) by (simp add: v framed_def split: if_splits)
  with s show ?thesis
    by (simp add: framed_def o)
qed

lemma stage_report_framed:
  assumes "stage_report env x_orig startt attack st = Inr st'" and "framed self printed st"
  shows "framed self printed st'"
  using assms unfolding stage_report_def Let_def framed_def
  by (auto simp: time_time_def print_def same_fields_def split: if_splits prod.splits)

lemma run_stage_parts:
  assumes "run_stage env x_orig x_inner y_orig bs startt attack st = Inr st'"
  shows "\<exists>idcs c n t.
           for_each (attack_batch env x_orig x_inner y_orig (nat bs) attack idcs c n) [0..<n] st
             = Inr t \<and>
           stage_report env x_orig startt attack t = Inr st'"
  using assms unfolding run_stage_def Let_def
  by (simp split: sum.splits if_splits) blast+

lemma run_stage_framed:
  assumes "run_stage env x_orig x_inner y_orig bs startt attack st = Inr st'"
    and "framed self printed st"
  shows "framed self printed st'"
proof -
  obtain idcs c n t where
    t: "for_each (attack_batch env x_orig x_inner y_orig (nat bs) attack idcs c n) [0..<n] st = Inr t"
    and g: "stage_report env x_orig startt attack t = Inr st'"
    using run_stage_parts[OF assms(1)] by blast
  have "framed self printed t"
    by (rule for_each_invariant[where P = "framed self printed", OF t assms(2)])
      (rule attack_batch_framed)
  then show ?thesis
    using stage_report_framed[OF g] by blast
qed

lemma run_stages_framed:
  "run_stages env x_orig x_inner y_orig bs startt plan st = Inr st' \<Longrightarrow> framed self printed st
     \<Longrightarrow> framed self printed st'"
proof (induction plan arbitrary: st)
  case Nil
  then show ?case by simp
next
  case (Cons attack rest)
  then show ?case
    by (auto split: if_splits sum.splits dest: run_stage_framed)
qed

lemma initial_pass_framed:
  assumes "initial_pass env self w x_orig x_inner y_orig bs = Inr (startt, st0)"
  shows "framed self (out w) st0"
  using assms unfolding initial_pass_def Let_def framed_def
  by (auto simp: time_time_def print_def same_fields_def split: sum.splits if_splits prod.splits)

lemma final_check_framed:
  assumes "final_check st = Inr st'" and "framed self printed st"
  shows "framed self printed st'"
  using assms unfolding final_check_def framed_def
  by (auto simp: print_def same_fields_def split: if_splits)

lemma run_standard_evaluation_framed:
  assumes "run_standard_evaluation env self w x_orig x_inner y_orig bs = Inr st"
  shows "\<exists>self1. reconcile self = Inr self1 \<and> framed self1 (out w) st"
proof -
  obtain self1 startt st0 plan st1 where
    rc: "reconcile self = Inr self1"
    and i: "initial_pass env self1 w x_orig x_inner y_orig bs = Inr (startt, st0)"
    and r: "run_stages env x_orig x_inner y_orig bs startt plan st0 = Inr st1"
    and f: "final_check st1 = Inr st"
    using run_standard_evaluation_parts[OF assms] by blast
  have "framed self1 (out w) st"
    using final_check_framed[OF f run_stages_framed[OF r initial_pass_framed[OF i]]] .
  with rc show ?thesis by blast
qed

subsection \<open>Individual runs\<close>

lemma remove_plus_single:
  "remove_plus [c] = (if c = ''apgd-t'' \<or> c = ''fab-t'' then [] else [c])"
  by (simp add: remove_plus_def)

lemma individual_step_fields:
  assumes "individual_step env x_orig x_inner y_orig bs verbose_indiv c (self, w, adv)
             = Inr (self', w', adv')"
    and "\<not> plus_mode self"
  shows "plus_mode self' = plus_mode self" and "verbose self' = verbose self"
    and "attacks_to_run self' = Some (remove_plus [c])"
proof -
  obtain w1 st where
    r: "run_standard_evaluation env (self\<lparr>attacks_to_run := Some [c]\<rparr>) w1 x_orig x_inner y_orig bs
          = Inr st"
    and o: "self' = obj st"
    using assms(1) unfolding individual_step_def Let_def
    by (auto split: sum.splits prod.splits if_splits)
  obtain self1 where rc: "reconcile (self\<lparr>attacks_to_run := Some [c]\<rparr>) = Inr self1"
    and f: "framed self1 (out w1) st"
    using run_standard_evaluation_framed[OF r] by blast
  have s1: "self1 = self\<lparr>attacks_to_run := Some (remove_plus [c])\<rparr>"
    using rc assms(2) by (simp add: reconcile_def)
  from f show "plus_mode self' = plus_mode self" and "verbose self' = verbose self"
    and "attacks_to_run self' = Some (remove_plus [c])"
    by (simp_all add: framed_def same_fields_def o s1)
qed

lemma individual_loop_fields:
  assumes "for_each (individual_step env x_orig x_inner y_orig bs verbose_indiv) l_attacks s = Inr s'"
    and "\<not> plus_mode (fst s)" and "\<not> verbose (fst s)"
  shows "\<not> plus_mode (fst s') \<and> \<not> verbose (fst s') \<and>
         (l_attacks \<noteq> [] \<longrightarrow> attacks_to_run (fst s') = Some (remove_plus [last l_attacks]))"
  using assms
proof (induction l_attacks arbitrary: s)
  case Nil
  then show ?case by simp
next
  case (Cons c rest)
  from Cons.prems(1) obtain t where
    t: "individual_step env x_orig x_inner y_orig bs verbose_indiv c s = Inr t"
    and l: "for_each (individual_step env x_orig x_inner y_orig bs verbose_indiv) rest t = Inr s'"
    by (auto split: sum.splits)
  obtain self w adv where s: "s = (self, w, adv)" by (cases s)
  obtain self1 w1 adv1 where tt: "t = (self1, w1, adv1)" by (cases t)
  note f = individual_step_fields[OF t[unfolded s tt]]
  have p: "\<not> plus_mode (fst t)" "\<not> verbose (fst t)"
    "attacks_to_run (fst t) = Some (remove_plus [c])"
    using f Cons.prems(2,3) by (simp_all add: s tt)
  show ?case
  proof (cases "rest = []")
    case True
    with l p show ?thesis by simp
  next
    case False
    with Cons.IH[OF l p(1,2)] show ?thesis by simp
  qed
qed

subsection \<open>The definitions on the small model\<close>

lemma Inr_projr: "\<not> isl r \<Longrightarrow> r = Inr (projr r)"
  by (cases r) simp_all

lemma demo_initial_pass:
  "initial_pass demo_env demo_one demo_world [13, 107] [3, 32, 32] [3, 7] 2 = Inr (0, demo_st0)"
  by code_simp

lemma demo_attack_batch:
  "\<not> isl (attack_batch demo_env [13, 107] [3, 32, 32] [3, 7] 2 ''apgd-ce''
            (squeeze (nonzero [True, True])) 2 1 0 demo_st0)"
  by code_simp

lemma demo_attack_batch_x_adv:
  "x_adv (projr (attack_batch demo_env [13, 107] [3, 32, 32] [3, 7] 2 ''apgd-ce''
            (squeeze (nonzero [True, True])) 2 1 0 demo_st0)) = [13, 108]"
  by code_simp

text \<open>
  Samples of two dimensions. A sub-batch of two samples has three dimensions and becomes
  the single element of a batch of shape \<open>[1, 2, 32, 32]\<close>; the mask of two entries does
  not index the result of the attack, and line 171 raises.
\<close>

lemma demo_rank3_sub_batch:
  "sub_batch [13, 107 :: nat] [32, 32] [3, 7] 2 (squeeze (nonzero [True, True])) 2 0
     = Inr (\<lparr>shape = [2], rows = [0, 1]\<rparr>, \<lparr>shape = [1, 2, 32, 32], rows = [13, 107]\<rparr>,
            \<lparr>shape = [2], rows = [3, 7]\<rparr>)"
  by code_simp

lemma demo_rank3_run:
  "run_standard_evaluation demo_env demo_one demo_world [13, 107] [32, 32] [3, 7] 2 = Inl IndexError"
  by code_simp

text \<open>
  Samples of one dimension with a single robust sample: the sub-batch has the shape
  \<open>[1, 1, 5]\<close> and becomes \<open>[1, 1, 1, 5]\<close>. When the attack leaves the sample robust,
  the empty selection of shape \<open>[0, 1, 5]\<close> does not broadcast to \<open>[0, 5]\<close> and line
  171 raises; when the attack succeeds, the selection of shape \<open>[1, 1, 5]\<close> is the
  sample that is written.
\<close>

lemma demo_rank2_single_kept:
  "run_standard_evaluation demo_env demo_one demo_world [13, 107] [5] [3, 0] 2 = Inl RuntimeError"
  by code_simp

lemma demo_rank2_single_broken:
  "x_adv (projr (run_standard_evaluation demo_env demo_one demo_world [13, 107] [5] [0, 7] 2))
     = [13, 108]"
  by code_simp

lemma demo_run_stages:
  "\<not> isl (run_stages demo_env [13, 107] [3, 32, 32] [3, 7] 2 0 [''apgd-ce''] demo_st0)"
  by code_simp

lemma demo_run_one:
  "\<not> isl (run_standard_evaluation demo_env demo_one demo_world [13, 107] [3, 32, 32] [3, 7] 2)"
  by code_simp

lemma demo_run_one_flags:
  "robust_flags (projr (run_standard_evaluation demo_env demo_one demo_world
       [13, 107] [3, 32, 32] [3, 7] 2)) = [True, False]"
  by code_simp

lemma demo_stage_flags:
  "robust_flags (projr (run_stages demo_env [13, 107] [3, 32, 32] [3, 7] 2 0 [''apgd-ce''] demo_st0))
     = [True, False]"
  by code_simp

lemma demo_second_batch:
  "\<not> isl (attack_batch demo_env [13, 107] [3, 32, 32] [3, 7] 2 ''apgd-dlr'' (nonzero [True, False]) 1 1 0
       (projr (run_stages demo_env [13, 107] [3, 32, 32] [3, 7] 2 0 [''apgd-ce''] demo_st0)))"
  by code_simp

lemma demo_second_stage:
  "\<not> isl (run_stage demo_env [13, 107] [3, 32, 32] [3, 7] 2 0 ''apgd-dlr''
       (projr (run_stages demo_env [13, 107] [3, 32, 32] [3, 7] 2 0 [''apgd-ce''] demo_st0)))"
  by code_simp

lemma demo_two_stages:
  "\<not> isl (run_stages demo_env [13, 107] [3, 32, 32] [3, 7] 2 0 [''apgd-ce'', ''apgd-dlr''] demo_st0)"
  by code_simp

lemma demo_two_reconcile: "reconcile demo_two = Inr demo_two"
  by code_simp

lemma demo_two_initial_pass:
  "initial_pass demo_env demo_two demo_world [107, 205] [3, 32, 32] [7, 5] 2 = Inr (0, demo_st0_two)"
  by code_simp

lemma demo_two_first_stage:
  "\<not> isl (run_stages demo_env [107, 205] [3, 32, 32] [7, 5] 2 0 [''apgd-ce''] demo_st0_two)"
  by code_simp

lemma demo_two_first_stage_result:
  "robust_flags (projr (run_stages demo_env [107, 205] [3, 32, 32] [7, 5] 2 0 [''apgd-ce''] demo_st0_two))
     = [False, False]"
  "map fst (calls (world (projr (run_stages demo_env [107, 205] [3, 32, 32] [7, 5] 2 0 [''apgd-ce'']
      demo_st0_two)))) = [Apgd]"
  by code_simp+

lemma demo_unknown_reconcile: "reconcile demo_unknown = Inr demo_unknown"
  by code_simp

lemma demo_unknown_initial_pass:
  "initial_pass demo_env demo_unknown demo_world [13, 107] [3, 32, 32] [3, 7] 2
     = Inr (0, demo_st0\<lparr>obj := demo_unknown\<rparr>)"
  by code_simp

lemma demo_unknown_first_stage:
  "\<not> isl (run_stages demo_env [13, 107] [3, 32, 32] [3, 7] 2 0 [''apgd-ce'']
       (demo_st0\<lparr>obj := demo_unknown\<rparr>))"
  by code_simp

lemma demo_unknown_first_stage_flags:
  "robust_flags (projr (run_stages demo_env [13, 107] [3, 32, 32] [3, 7] 2 0 [''apgd-ce'']
       (demo_st0\<lparr>obj := demo_unknown\<rparr>))) = [True, False]"
  by code_simp


lemma demo_individual_run:
  "\<not> isl (run_standard_evaluation_individual demo_env (demo_two\<lparr>verbose := True\<rparr>) demo_world
            [13, 107] [3, 32, 32] [3, 7] 2)"
  by code_simp

subsection \<open>The claims\<close>

text \<open>
  Claim C1 (the attack list follows the plus flag, also for an object constructed with
  \<open>plus=True\<close>). The code does not do this: \<open>__init__\<close> stores the value of
  \<open>attacks_to_run.extend([...])\<close>, which is \<open>None\<close>, so for every argument list with a
  valid norm and \<open>plus=True\<close> the first membership test of \<open>run_standard_evaluation\<close>
  raises \<open>TypeError\<close>, whatever the model, the samples and the batch size are.
\<close>

theorem plus_at_construction_raises:
  "map_sum id (\<lambda>self. run_standard_evaluation env self w x_orig x_inner y_orig bs)
       (init nrm eps sd vb atr True tf dev) =
     (if nrm \<in> set [''Linf'', ''L2''] then Inr (Inl TypeError) else Inl AssertionError)"
  by (simp add: init_def list_extend_def run_standard_evaluation_def reconcile_def)

text \<open>
  Claim C2 (a sample whose robust flag is on has its original input as adversarial
  example, throughout \<open>run_standard_evaluation\<close> and at its return). At the creation of
  \<open>x_adv\<close> it is \<open>x_orig\<close>. Every pass of the batch loop keeps the property, and it
  changes an entry of \<open>x_adv\<close> only at an index that the probe after the attack reports
  as misclassified: with \<open>b\<close> the indices of the sub-batch, \<open>y\<close> its labels, \<open>p\<close> the
  predictions of the model on the result of the attack and \<open>eq\<close> the comparison
  \<open>y.eq(p)\<close>, the index is \<open>b[j]\<close> for a position \<open>j\<close> where \<open>eq\<close> is false, that is, an
  element of \<open>b[~eq]\<close>; its flag is off afterwards. Every run of the stage loop keeps the
  property, and it holds of the state the function returns from.
\<close>

theorem robust_examples_are_originals:
  "(initial_pass env self w x_orig x_inner y_orig bs = Inr (startt, st0)
      \<longrightarrow> x_adv st0 = x_orig \<and> consistent x_orig st0) \<and>
   (consistent x_orig st \<and>
    attack_batch env x_orig x_inner y_orig bsn attack idcs num_robust n_batches batch_idx st = Inr st'
      \<longrightarrow> consistent x_orig st' \<and>
          (\<exists>b x y adv_curr self1 w1 p eq.
              sub_batch x_orig x_inner y_orig bsn idcs num_robust batch_idx = Inr (b, x, y) \<and>
              run_attack env attack x y (obj st) (world st) = Inr (adv_curr, self1, w1) \<and>
              predicted env self1 adv_curr = Inr p \<and>
              tensor_eq (rows y) p = Inr eq \<and>
              (\<forall>i<length x_orig. x_adv st' ! i \<noteq> x_adv st ! i \<longrightarrow>
                  i \<in> set (mask_select (rows b) (map Not eq)) \<and>
                  (\<exists>j. j < length (rows b) \<and> j < length eq \<and> rows b ! j = i \<and> \<not> eq ! j) \<and>
                  \<not> robust_flags st' ! i))) \<and>
   (consistent x_orig st \<and> run_stages env x_orig x_inner y_orig bs startt plan st = Inr st''
      \<longrightarrow> consistent x_orig st'') \<and>
   (run_standard_evaluation env self w x_orig x_inner y_orig bs = Inr st_end
      \<longrightarrow> length (x_adv st_end) = length x_orig \<and>
          (\<forall>i<length x_orig. robust_flags st_end ! i \<longrightarrow> x_adv st_end ! i = x_orig ! i))"
proof (intro conjI impI)
  assume "initial_pass env self w x_orig x_inner y_orig bs = Inr (startt, st0)"
  then show "x_adv st0 = x_orig" "consistent x_orig st0"
    by (rule initial_pass_state(1), rule initial_pass_consistent)
next
  assume a: "consistent x_orig st \<and>
    attack_batch env x_orig x_inner y_orig bsn attack idcs num_robust n_batches batch_idx st = Inr st'"
  then show "consistent x_orig st'"
    by (blast intro: attack_batch_consistent)
  from a have ab: "attack_batch env x_orig x_inner y_orig bsn attack idcs num_robust n_batches
      batch_idx st = Inr st'" and len: "length (robust_flags st) = length x_orig"
    by (simp_all add: consistent_iff)
  from attack_batch_only_probe[OF ab] obtain b x y adv_curr self1 w1 p eq vs where
    e: "sub_batch x_orig x_inner y_orig bsn idcs num_robust batch_idx = Inr (b, x, y)"
      "run_attack env attack x y (obj st) (world st) = Inr (adv_curr, self1, w1)"
      "predicted env self1 adv_curr = Inr p" "tensor_eq (rows y) p = Inr eq"
    and xa: "x_adv st' = index_put (x_adv st) (mask_select (rows b) (map Not eq)) vs"
    by blast
  have "\<forall>i<length x_orig. x_adv st' ! i \<noteq> x_adv st ! i \<longrightarrow>
          i \<in> set (mask_select (rows b) (map Not eq)) \<and>
          (\<exists>j. j < length (rows b) \<and> j < length eq \<and> rows b ! j = i \<and> \<not> eq ! j) \<and>
          \<not> robust_flags st' ! i"
  proof (intro allI impI)
    fix i
    assume i: "i < length x_orig" and ch: "x_adv st' ! i \<noteq> x_adv st ! i"
    have m: "i \<in> set (mask_select (rows b) (map Not eq))"
      using ch nth_index_put_other[of i "mask_select (rows b) (map Not eq)" "x_adv st" vs]
      unfolding xa by blast
    then have "\<exists>j. j < length (rows b) \<and> j < length eq \<and> rows b ! j = i \<and> \<not> eq ! j"
      by (auto simp: mask_select_iff)
    moreover have "\<not> robust_flags st' ! i"
      using attack_batch_overwrites[OF ab _ ch] i len by simp
    ultimately show "i \<in> set (mask_select (rows b) (map Not eq)) \<and>
          (\<exists>j. j < length (rows b) \<and> j < length eq \<and> rows b ! j = i \<and> \<not> eq ! j) \<and>
          \<not> robust_flags st' ! i"
      using m by blast
  qed
  with e show "\<exists>b x y adv_curr self1 w1 p eq.
              sub_batch x_orig x_inner y_orig bsn idcs num_robust batch_idx = Inr (b, x, y) \<and>
              run_attack env attack x y (obj st) (world st) = Inr (adv_curr, self1, w1) \<and>
              predicted env self1 adv_curr = Inr p \<and>
              tensor_eq (rows y) p = Inr eq \<and>
              (\<forall>i<length x_orig. x_adv st' ! i \<noteq> x_adv st ! i \<longrightarrow>
                  i \<in> set (mask_select (rows b) (map Not eq)) \<and>
                  (\<exists>j. j < length (rows b) \<and> j < length eq \<and> rows b ! j = i \<and> \<not> eq ! j) \<and>
                  \<not> robust_flags st' ! i)"
    by blast
next
  assume "consistent x_orig st \<and> run_stages env x_orig x_inner y_orig bs startt plan st = Inr st''"
  then show "consistent x_orig st''"
    by (blast intro: run_stages_consistent)
next
  assume "run_standard_evaluation env self w x_orig x_inner y_orig bs = Inr st_end"
  then have "consistent x_orig st_end"
    by (rule run_standard_evaluation_consistent)
  then show "length (x_adv st_end) = length x_orig"
    "\<forall>i<length x_orig. robust_flags st_end ! i \<longrightarrow> x_adv st_end ! i = x_orig ! i"
    by (simp_all add: consistent_iff)
qed

theorem robust_examples_are_originals_witness:
  "initial_pass demo_env demo_one demo_world [13, 107] [3, 32, 32] [3, 7] 2 = Inr (0, demo_st0) \<and>
   x_adv demo_st0 = [13, 107] \<and> consistent [13, 107] demo_st0 \<and>
   consistent [13, 107]
     (projr (attack_batch demo_env [13, 107] [3, 32, 32] [3, 7] 2 ''apgd-ce''
        (squeeze (nonzero [True, True])) 2 1 0 demo_st0)) \<and>
   x_adv (projr (attack_batch demo_env [13, 107] [3, 32, 32] [3, 7] 2 ''apgd-ce''
        (squeeze (nonzero [True, True])) 2 1 0 demo_st0)) = [13, 108] \<and>
   (\<exists>b x y adv_curr self1 w1 p eq.
       sub_batch [13, 107] [3, 32, 32] [3, 7] 2 (squeeze (nonzero [True, True])) 2 0
         = Inr (b, x, y) \<and>
       run_attack demo_env ''apgd-ce'' x y (obj demo_st0) (world demo_st0)
         = Inr (adv_curr, self1, w1) \<and>
       predicted demo_env self1 adv_curr = Inr p \<and>
       tensor_eq (rows y) p = Inr eq \<and>
       1 \<in> set (mask_select (rows b) (map Not eq)) \<and>
       \<not> robust_flags (projr (attack_batch demo_env [13, 107] [3, 32, 32] [3, 7] 2 ''apgd-ce''
            (squeeze (nonzero [True, True])) 2 1 0 demo_st0)) ! 1) \<and>
   consistent [13, 107]
     (projr (run_stages demo_env [13, 107] [3, 32, 32] [3, 7] 2 0 [''apgd-ce''] demo_st0)) \<and>
   robust_flags (projr (run_standard_evaluation demo_env demo_one demo_world
       [13, 107] [3, 32, 32] [3, 7] 2)) ! 0 \<and>
   x_adv (projr (run_standard_evaluation demo_env demo_one demo_world
       [13, 107] [3, 32, 32] [3, 7] 2)) ! 0 = 13"
proof -
  let ?B = "attack_batch demo_env [13, 107] [3, 32, 32] [3, 7] 2 ''apgd-ce''
              (squeeze (nonzero [True, True])) 2 1 0 demo_st0"
  let ?S = "run_stages demo_env [13, 107] [3, 32, 32] [3, 7] 2 0 [''apgd-ce''] demo_st0"
  let ?R = "run_standard_evaluation demo_env demo_one demo_world [13, 107] [3, 32, 32] [3, 7] 2"
  note t = robust_examples_are_originals[where env = demo_env and self = demo_one
      and w = demo_world and x_orig = "[13, 107]" and x_inner = "[3, 32, 32]"
      and y_orig = "[3, 7]" and bs = 2 and startt = 0 and ?st0.0 = demo_st0 and st = demo_st0
      and bsn = 2 and attack = "''apgd-ce''" and idcs = "squeeze (nonzero [True, True])"
      and num_robust = 2 and n_batches = 1 and batch_idx = 0 and st' = "projr ?B"
      and plan = "[''apgd-ce'']" and st'' = "projr ?S" and st_end = "projr ?R"]
  have b: "?B = Inr (projr ?B)" by (rule Inr_projr) (rule demo_attack_batch)
  have s: "?S = Inr (projr ?S)" by (rule Inr_projr) (rule demo_run_stages)
  have r: "?R = Inr (projr ?R)" by (rule Inr_projr) (rule demo_run_one)
  have c0: "x_adv demo_st0 = [13, 107] \<and> consistent [13, 107] demo_st0"
    using t demo_initial_pass by blast
  have cb: "consistent [13, 107] (projr ?B)"
    using t c0 b by blast
  have "\<exists>b x y adv_curr self1 w1 p eq.
       sub_batch [13, 107] [3, 32, 32] [3, 7] 2 (squeeze (nonzero [True, True])) 2 0
         = Inr (b, x, y) \<and>
       run_attack demo_env ''apgd-ce'' x y (obj demo_st0) (world demo_st0)
         = Inr (adv_curr, self1, w1) \<and>
       predicted demo_env self1 adv_curr = Inr p \<and>
       tensor_eq (rows y) p = Inr eq \<and>
       (\<forall>i<length [13, 107 :: nat]. x_adv (projr ?B) ! i \<noteq> x_adv demo_st0 ! i \<longrightarrow>
           i \<in> set (mask_select (rows b) (map Not eq)) \<and>
           (\<exists>j. j < length (rows b) \<and> j < length eq \<and> rows b ! j = i \<and> \<not> eq ! j) \<and>
           \<not> robust_flags (projr ?B) ! i)"
    using t c0 b by blast
  then obtain b0 x0 y0 adv0 self0 w0 p0 eq0 where
    e: "sub_batch [13, 107] [3, 32, 32] [3, 7] 2 (squeeze (nonzero [True, True])) 2 0
         = Inr (b0, x0, y0)"
      "run_attack demo_env ''apgd-ce'' x0 y0 (obj demo_st0) (world demo_st0)
         = Inr (adv0, self0, w0)"
      "predicted demo_env self0 adv0 = Inr p0" "tensor_eq (rows y0) p0 = Inr eq0"
    and al: "\<forall>i<length [13, 107 :: nat]. x_adv (projr ?B) ! i \<noteq> x_adv demo_st0 ! i \<longrightarrow>
           i \<in> set (mask_select (rows b0) (map Not eq0)) \<and>
           (\<exists>j. j < length (rows b0) \<and> j < length eq0 \<and> rows b0 ! j = i \<and> \<not> eq0 ! j) \<and>
           \<not> robust_flags (projr ?B) ! i"
    by blast
  have ch: "x_adv (projr ?B) ! 1 \<noteq> x_adv demo_st0 ! 1"
    unfolding demo_attack_batch_x_adv by (simp add: demo_st0_def)
  have "(1 :: nat) < length [13, 107 :: nat]"
    by simp
  with al ch have "1 \<in> set (mask_select (rows b0) (map Not eq0)) \<and> \<not> robust_flags (projr ?B) ! 1"
    by blast
  with e have pr: "\<exists>b x y adv_curr self1 w1 p eq.
       sub_batch [13, 107] [3, 32, 32] [3, 7] 2 (squeeze (nonzero [True, True])) 2 0
         = Inr (b, x, y) \<and>
       run_attack demo_env ''apgd-ce'' x y (obj demo_st0) (world demo_st0)
         = Inr (adv_curr, self1, w1) \<and>
       predicted demo_env self1 adv_curr = Inr p \<and>
       tensor_eq (rows y) p = Inr eq \<and>
       1 \<in> set (mask_select (rows b) (map Not eq)) \<and>
       \<not> robust_flags (projr ?B) ! 1"
    by blast
  have cs: "consistent [13, 107] (projr ?S)"
    using t c0 s by blast
  have ce: "\<forall>i<length [13, 107 :: nat]. robust_flags (projr ?R) ! i \<longrightarrow> x_adv (projr ?R) ! i = [13, 107] ! i"
    using t r by blast
  have f: "robust_flags (projr ?R) ! 0"
    by (simp add: demo_run_one_flags)
  from ce f have "x_adv (projr ?R) ! 0 = 13"
    by simp
  with demo_initial_pass c0 cb cs f pr demo_attack_batch_x_adv show ?thesis
    by blast
qed

text \<open>
  Claim C3 (robust flags only go off). A pass of the batch loop leaves every flag off
  that is off, and so does a whole stage. For two numbers of stages \<open>k1 \<le> k2\<close> of one
  run, a flag that is off after the first \<open>k1\<close> stages is off after the first \<open>k2\<close>
  (\<open>run_stages\<close> on \<open>take k plan\<close> is the state after \<open>k\<close> stages, or at the early exit
  if the loop is left before).
\<close>

theorem robust_flags_never_reset:
  "(attack_batch env x_orig x_inner y_orig bsn attack idcs num_robust n_batches batch_idx st = Inr st'
      \<and> i < length (robust_flags st) \<and> \<not> robust_flags st ! i
      \<longrightarrow> \<not> robust_flags st' ! i) \<and>
   (run_stage env x_orig x_inner y_orig bs startt attack st = Inr st''
      \<and> i < length (robust_flags st) \<and> \<not> robust_flags st ! i
      \<longrightarrow> \<not> robust_flags st'' ! i) \<and>
   (k1 \<le> k2
      \<and> run_stages env x_orig x_inner y_orig bs startt (take k1 plan) st0 = Inr st1
      \<and> run_stages env x_orig x_inner y_orig bs startt (take k2 plan) st0 = Inr st2
      \<and> i < length (robust_flags st1) \<and> \<not> robust_flags st1 ! i
      \<longrightarrow> length (robust_flags st2) = length (robust_flags st1) \<and> \<not> robust_flags st2 ! i)"
proof (intro conjI impI)
  assume "attack_batch env x_orig x_inner y_orig bsn attack idcs num_robust n_batches batch_idx st
            = Inr st' \<and> i < length (robust_flags st) \<and> \<not> robust_flags st ! i"
  then show "\<not> robust_flags st' ! i"
    using flags_belowD[OF attack_batch_below] by blast
next
  assume "run_stage env x_orig x_inner y_orig bs startt attack st = Inr st''
            \<and> i < length (robust_flags st) \<and> \<not> robust_flags st ! i"
  then show "\<not> robust_flags st'' ! i"
    using flags_belowD[OF run_stage_below] by blast
next
  assume a: "k1 \<le> k2
      \<and> run_stages env x_orig x_inner y_orig bs startt (take k1 plan) st0 = Inr st1
      \<and> run_stages env x_orig x_inner y_orig bs startt (take k2 plan) st0 = Inr st2
      \<and> i < length (robust_flags st1) \<and> \<not> robust_flags st1 ! i"
  then have "take k2 plan = take k1 plan @ drop k1 (take k2 plan)"
    by (metis append_take_drop_id min.absorb1 take_take)
  with a have "run_stages env x_orig x_inner y_orig bs startt (drop k1 (take k2 plan)) st1 = Inr st2"
    using run_stages_append[of env x_orig x_inner y_orig bs startt "take k1 plan"
        "drop k1 (take k2 plan)" st0]
    by simp
  then have b: "flags_below (robust_flags st2) (robust_flags st1)"
    by (rule run_stages_below)
  then show "length (robust_flags st2) = length (robust_flags st1)"
    by (simp add: flags_below_iff)
  from b a show "\<not> robust_flags st2 ! i"
    using flags_belowD by blast
qed

theorem robust_flags_never_reset_witness:
  "robust_flags (projr (run_stages demo_env [13, 107] [3, 32, 32] [3, 7] 2 0 [''apgd-ce''] demo_st0))
     = [True, False] \<and>
   \<not> robust_flags (projr (attack_batch demo_env [13, 107] [3, 32, 32] [3, 7] 2 ''apgd-dlr''
       (nonzero [True, False]) 1 1 0
       (projr (run_stages demo_env [13, 107] [3, 32, 32] [3, 7] 2 0 [''apgd-ce''] demo_st0)))) ! 1 \<and>
   \<not> robust_flags (projr (run_stage demo_env [13, 107] [3, 32, 32] [3, 7] 2 0 ''apgd-dlr''
       (projr (run_stages demo_env [13, 107] [3, 32, 32] [3, 7] 2 0 [''apgd-ce''] demo_st0)))) ! 1 \<and>
   \<not> robust_flags (projr (run_stages demo_env [13, 107] [3, 32, 32] [3, 7] 2 0
       [''apgd-ce'', ''apgd-dlr''] demo_st0)) ! 1"
proof -
  let ?S = "run_stages demo_env [13, 107] [3, 32, 32] [3, 7] 2 0 [''apgd-ce''] demo_st0"
  let ?B = "attack_batch demo_env [13, 107] [3, 32, 32] [3, 7] 2 ''apgd-dlr''
              (nonzero [True, False]) 1 1 0 (projr ?S)"
  let ?G = "run_stage demo_env [13, 107] [3, 32, 32] [3, 7] 2 0 ''apgd-dlr'' (projr ?S)"
  let ?T = "run_stages demo_env [13, 107] [3, 32, 32] [3, 7] 2 0 [''apgd-ce'', ''apgd-dlr''] demo_st0"
  note t = robust_flags_never_reset[where env = demo_env and x_orig = "[13, 107]"
      and x_inner = "[3, 32, 32]" and y_orig = "[3, 7]" and bsn = 2 and bs = 2 and startt = 0
      and attack = "''apgd-dlr''" and idcs = "nonzero [True, False]" and num_robust = 1
      and n_batches = 1 and batch_idx = 0 and st = "projr ?S" and st' = "projr ?B"
      and st'' = "projr ?G" and i = 1 and ?k1.0 = 1 and ?k2.0 = 2
      and plan = "[''apgd-ce'', ''apgd-dlr'']" and ?st0.0 = demo_st0 and ?st1.0 = "projr ?S"
      and ?st2.0 = "projr ?T"]
  have s: "?S = Inr (projr ?S)" by (rule Inr_projr) (rule demo_run_stages)
  have b: "?B = Inr (projr ?B)" by (rule Inr_projr) (rule demo_second_batch)
  have g: "?G = Inr (projr ?G)" by (rule Inr_projr) (rule demo_second_stage)
  have u: "?T = Inr (projr ?T)" by (rule Inr_projr) (rule demo_two_stages)
  have k: "take 1 [''apgd-ce'', ''apgd-dlr''] = [''apgd-ce'']"
    "take 2 [''apgd-ce'', ''apgd-dlr''] = [''apgd-ce'', ''apgd-dlr'']"
    by simp_all
  have f: "(1::nat) < length (robust_flags (projr ?S))" "\<not> robust_flags (projr ?S) ! 1"
    unfolding demo_stage_flags by simp_all
  have le: "(1::nat) \<le> 2" by simp
  have "\<not> robust_flags (projr ?B) ! 1"
    using t b f by blast
  moreover have "\<not> robust_flags (projr ?G) ! 1"
    using t g f by blast
  moreover have "\<not> robust_flags (projr ?T) ! 1"
    using t[unfolded k] s u f le by blast
  ultimately show ?thesis
    using demo_stage_flags by blast
qed

text \<open>
  Claim C4 (no attack once no sample is robust). If the state after the stages \<open>pre\<close>
  has no robust sample, the stage loop over \<open>pre @ rest\<close> ends in that very state: no
  stage of \<open>rest\<close> calls \<open>perturb\<close> (the state holds the log of the calls) or changes
  anything else. The whole call then is the final check on that state, which adds no
  call.
\<close>

theorem no_attack_after_last_robust_sample:
  assumes "run_stages env x_orig x_inner y_orig bs startt pre st0 = Inr st1"
    and "count_true (robust_flags st1) = 0"
  shows "run_stages env x_orig x_inner y_orig bs startt (pre @ rest) st0 = Inr st1 \<and>
         (reconcile self = Inr self1 \<and>
          initial_pass env self1 w x_orig x_inner y_orig bs = Inr (startt, st0) \<and>
          attacks_to_run self1 = Some (pre @ rest)
            \<longrightarrow> run_standard_evaluation env self w x_orig x_inner y_orig bs = final_check st1 \<and>
                (\<forall>st. final_check st1 = Inr st \<longrightarrow> calls (world st) = calls (world st1)))"
proof -
  have l: "run_stages env x_orig x_inner y_orig bs startt (pre @ rest) st0 = Inr st1"
    by (simp add: run_stages_append assms run_stages_none_robust)
  then show ?thesis
    by (auto simp: run_standard_evaluation_def final_check_state(4))
qed

theorem no_attack_after_last_robust_sample_witness:
  "count_true (robust_flags (projr (run_stages demo_env [107, 205] [3, 32, 32] [7, 5] 2 0
       [''apgd-ce''] demo_st0_two))) = 0 \<and>
   run_stages demo_env [107, 205] [3, 32, 32] [7, 5] 2 0 ([''apgd-ce''] @ [''fab'']) demo_st0_two
     = Inr (projr (run_stages demo_env [107, 205] [3, 32, 32] [7, 5] 2 0 [''apgd-ce''] demo_st0_two))
   \<and>
   run_standard_evaluation demo_env demo_two demo_world [107, 205] [3, 32, 32] [7, 5] 2
     = final_check (projr (run_stages demo_env [107, 205] [3, 32, 32] [7, 5] 2 0 [''apgd-ce'']
         demo_st0_two)) \<and>
   map fst (calls (world (projr (run_stages demo_env [107, 205] [3, 32, 32] [7, 5] 2 0 [''apgd-ce'']
      demo_st0_two)))) = [Apgd]"
proof -
  let ?P = "run_stages demo_env [107, 205] [3, 32, 32] [7, 5] 2 0 [''apgd-ce''] demo_st0_two"
  have p: "?P = Inr (projr ?P)" by (rule Inr_projr) (rule demo_two_first_stage)
  have z: "count_true (robust_flags (projr ?P)) = 0"
    unfolding demo_two_first_stage_result by (simp add: count_true_def)
  have a: "attacks_to_run demo_two = Some ([''apgd-ce''] @ [''fab''])"
    by (simp add: demo_two_def)
  note t = no_attack_after_last_robust_sample[OF p z, where rest = "[''fab'']" and self = demo_two
      and ?self1.0 = demo_two and w = demo_world]
  from t demo_two_reconcile demo_two_initial_pass a
  have "run_stages demo_env [107, 205] [3, 32, 32] [7, 5] 2 0 ([''apgd-ce''] @ [''fab'']) demo_st0_two
          = Inr (projr ?P)"
    and "run_standard_evaluation demo_env demo_two demo_world [107, 205] [3, 32, 32] [7, 5] 2
          = final_check (projr ?P)"
    by blast+
  with z demo_two_first_stage_result(2) show ?thesis
    by blast
qed

text \<open>
  Claim C5 (\<open>clean_accuracy\<close> returns the fraction of all samples classified correctly,
  whatever the batch size). The code does not do this: the number of batches is
  \<open>x_orig.shape[0] // bs\<close>, rounded down, where the clean pass of
  \<open>run_standard_evaluation\<close> rounds up. With three samples, all classified correctly,
  and batches of two the third sample is never looked at and the result is 2/3; with a
  batch size of five no batch runs and \<open>acc.item()\<close> is called on a float.
\<close>

theorem clean_accuracy_drops_trailing_batch:
  "predicted demo_env demo_self \<lparr>shape = [3, 3, 32, 32], rows = [13, 107, 55]\<rparr> = Inr [3, 7, 5] \<and>
   clean_accuracy demo_env demo_self demo_world [13, 107, 55] [3, 32, 32] [3, 7, 5] 2
     = Inr (2 / 3, demo_world) \<and>
   clean_accuracy demo_env demo_self demo_world [13, 107, 55] [3, 32, 32] [3, 7, 5] 5
     = Inl AttributeError"
  by code_simp

text \<open>
  Claim C6 (every sub-batch handed to \<open>perturb\<close> has batch rank, down to one remaining
  robust sample). The code does not do this: with one robust sample the index tensor
  keeps its shape \<open>[1, 1]\<close>, so the sub-batch of inputs of shape \<open>[3, 32, 32]\<close> has the
  five dimensions \<open>[1, 1, 3, 32, 32]\<close>, and the test for three dimensions does not
  apply. Here sample 13 is the only one classified correctly; all four stages get it.
\<close>

theorem single_robust_sample_rank:
  "map_sum id (\<lambda>st. map (\<lambda>(a, cfg, x, y). (a, shape x, shape y)) (calls (world st)))
     (run_standard_evaluation demo_env demo_self demo_world [13, 21] [3, 32, 32] [3, 2] 250) =
   Inr [(Apgd, [1, 1, 3, 32, 32], [1, 1]), (Apgd, [1, 1, 3, 32, 32], [1, 1]),
        (Fab, [1, 1, 3, 32, 32], [1, 1]), (Square, [1, 1, 3, 32, 32], [1, 1])]"
  by code_simp

text \<open>
  Claim C7, as amended (\<open>cheap\<close> sets the restart counts of the gradient, the boundary
  and the targeted gradient adapter to 1, the query budget of the black-box adapter to
  1000 and the plus flag to false; it leaves the attack list, the norm, epsilon, the
  seed, the verbosity, the model kind, the device and every other attribute of the
  adapters as they are).
\<close>

theorem cheap_effect:
  "n_restarts (apgd (cheap self)) = 1 \<and> n_restarts (fab (cheap self)) = 1 \<and>
   n_restarts (apgd_targeted (cheap self)) = 1 \<and> n_queries (square (cheap self)) = Some 1000 \<and>
   plus_mode (cheap self) = False \<and>
   attacks_to_run (cheap self) = attacks_to_run self \<and>
   norm_family (cheap self) = norm_family self \<and> epsilon (cheap self) = epsilon self \<and>
   seed (cheap self) = seed self \<and> verbose (cheap self) = verbose self \<and>
   is_tf_model (cheap self) = is_tf_model self \<and> device (cheap self) = device self \<and>
   apgd (cheap self) = (apgd self)\<lparr>n_restarts := 1\<rparr> \<and>
   fab (cheap self) = (fab self)\<lparr>n_restarts := 1\<rparr> \<and>
   apgd_targeted (cheap self) = (apgd_targeted self)\<lparr>n_restarts := 1\<rparr> \<and>
   square (cheap self) = (square self)\<lparr>n_queries := Some 1000\<rparr>"
  by (simp add: cheap_def)

text \<open>
  Claim C7 as stated fails: on an object whose plus flag is on, \<open>cheap\<close> turns it off.
\<close>

theorem cheap_changes_plus:
  "plus_mode (demo_self\<lparr>plus_mode := True\<rparr>) = True \<and>
   plus_mode (cheap (demo_self\<lparr>plus_mode := True\<rparr>)) = False"
  by (simp add: cheap_def)

text \<open>
  Claim C8 (an unknown attack identifier raises when its stage is reached with a robust
  sample left; an unknown norm is rejected by the constructor). Let the attack list
  after the reconciliation be \<open>pre @ attack # rest\<close> with \<open>attack\<close> none of the six
  known identifiers. If the clean pass succeeds and the stages \<open>pre\<close> end in a state
  with a robust sample, the call raises in the first batch of the stage; when every
  sample has a label the batch reaches the dispatch and the exception is the
  \<open>ValueError\<close> of its last branch (where labels are missing, gathering the labels of
  the batch can raise before). No assumption on the batch size is needed, since a clean
  pass that succeeds with a robust sample left has a positive one. \<open>__init__\<close> raises
  \<open>AssertionError\<close> for every norm other than \<open>Linf\<close> and \<open>L2\<close>.
\<close>

theorem unknown_attack_raises:
  "(reconcile self = Inr self1 \<and> attacks_to_run self1 = Some (pre @ attack # rest) \<and>
    attack \<notin> set known_attacks \<and>
    initial_pass env self1 w x_orig x_inner y_orig bs = Inr (startt, st0) \<and>
    run_stages env x_orig x_inner y_orig bs startt pre st0 = Inr st1 \<and>
    count_true (robust_flags st1) \<noteq> 0
      \<longrightarrow> (\<exists>e. run_standard_evaluation env self w x_orig x_inner y_orig bs = Inl e) \<and>
          (length x_orig \<le> length y_orig
             \<longrightarrow> run_standard_evaluation env self w x_orig x_inner y_orig bs
                   = Inl (ValueError ''Attack not supported''))) \<and>
   (nrm \<notin> set [''Linf'', ''L2''] \<longrightarrow> init nrm eps sd vb atr pl tf dev = Inl AssertionError)"
proof (intro conjI impI)
  assume a: "reconcile self = Inr self1 \<and> attacks_to_run self1 = Some (pre @ attack # rest) \<and>
    attack \<notin> set known_attacks \<and>
    initial_pass env self1 w x_orig x_inner y_orig bs = Inr (startt, st0) \<and>
    run_stages env x_orig x_inner y_orig bs startt pre st0 = Inr st1 \<and>
    count_true (robust_flags st1) \<noteq> 0"
  then have i: "initial_pass env self1 w x_orig x_inner y_orig bs = Inr (startt, st0)"
    and p: "run_stages env x_orig x_inner y_orig bs startt pre st0 = Inr st1"
    and c: "count_true (robust_flags st1) \<noteq> 0" and u: "attack \<notin> set known_attacks"
    by simp_all
  have below: "flags_below (robust_flags st1) (robust_flags st0)"
    using run_stages_below[OF p] .
  have "count_true (robust_flags st0) \<noteq> 0"
    using flags_below_count[OF below] c by blast
  then have "\<not> bs < 0"
    using initial_pass_negative[OF i] by auto
  then have bs: "0 < bs"
    using initial_pass_state(5)[OF i] by simp
  have len: "length (robust_flags st1) = length x_orig"
    using below initial_pass_state(2)[OF i] by (simp add: flags_below_iff)
  obtain e where "run_stage env x_orig x_inner y_orig bs startt attack st1 = Inl e"
    using run_stage_unknown_raises[OF u c bs] by blast
  then have "run_stages env x_orig x_inner y_orig bs startt (pre @ attack # rest) st0 = Inl e"
    using c by (simp add: run_stages_append p)
  then show "\<exists>e. run_standard_evaluation env self w x_orig x_inner y_orig bs = Inl e"
    using a by (simp add: run_standard_evaluation_def)
  assume labels: "length x_orig \<le> length y_orig"
  have "run_stage env x_orig x_inner y_orig bs startt attack st1
          = Inl (ValueError ''Attack not supported'')"
    using run_stage_unknown[OF u c bs len labels initial_pass_positive[OF i bs]] .
  then have "run_stages env x_orig x_inner y_orig bs startt (pre @ attack # rest) st0
          = Inl (ValueError ''Attack not supported'')"
    using c by (simp add: run_stages_append p)
  then show "run_standard_evaluation env self w x_orig x_inner y_orig bs
               = Inl (ValueError ''Attack not supported'')"
    using a by (simp add: run_standard_evaluation_def)
next
  assume "nrm \<notin> set [''Linf'', ''L2'']"
  then show "init nrm eps sd vb atr pl tf dev = Inl AssertionError"
    by (simp add: init_def)
qed

theorem unknown_attack_raises_witness:
  "robust_flags (projr (run_stages demo_env [13, 107] [3, 32, 32] [3, 7] 2 0 [''apgd-ce'']
       (demo_st0\<lparr>obj := demo_unknown\<rparr>))) = [True, False] \<and>
   run_standard_evaluation demo_env demo_unknown demo_world [13, 107] [3, 32, 32] [3, 7] 2
     = Inl (ValueError ''Attack not supported'') \<and>
   init ''L1'' (3 / 10) None True default_attacks_to_run False False ''cuda'' = Inl AssertionError"
proof -
  let ?P = "run_stages demo_env [13, 107] [3, 32, 32] [3, 7] 2 0 [''apgd-ce'']
              (demo_st0\<lparr>obj := demo_unknown\<rparr>)"
  note t = unknown_attack_raises[where self = demo_unknown and ?self1.0 = demo_unknown
      and pre = "[''apgd-ce'']" and attack = "''foo''" and rest = "[]" and env = demo_env
      and w = demo_world and x_orig = "[13, 107]" and x_inner = "[3, 32, 32]" and y_orig = "[3, 7]"
      and bs = 2 and startt = 0 and ?st0.0 = "demo_st0\<lparr>obj := demo_unknown\<rparr>"
      and ?st1.0 = "projr ?P" and nrm = "''L1''" and eps = "3 / 10" and sd = None and vb = True
      and atr = default_attacks_to_run and pl = False and tf = False and dev = "''cuda''"]
  have p: "?P = Inr (projr ?P)" by (rule Inr_projr) (rule demo_unknown_first_stage)
  have a: "attacks_to_run demo_unknown = Some ([''apgd-ce''] @ ''foo'' # [])"
    by (simp add: demo_unknown_def)
  have u: "''foo'' \<notin> set known_attacks"
    by (simp add: known_attacks_def)
  have c: "count_true (robust_flags (projr ?P)) \<noteq> 0"
    unfolding demo_unknown_first_stage_flags by (simp add: count_true_def)
  have n: "''L1'' \<notin> set [''Linf'', ''L2'']"
    by simp
  have l: "length [13, 107 :: nat] \<le> length [3, 7 :: nat]"
    by simp
  from t demo_unknown_reconcile a u demo_unknown_initial_pass p c n l
  have "run_standard_evaluation demo_env demo_unknown demo_world [13, 107] [3, 32, 32] [3, 7] 2
          = Inl (ValueError ''Attack not supported'')"
    and "init ''L1'' (3 / 10) None True default_attacks_to_run False False ''cuda''
          = Inl AssertionError"
    by blast+
  with demo_unknown_first_stage_flags show ?thesis
    by blast
qed



text \<open>
  Claim C10, as amended (\<open>run_standard_evaluation_individual\<close> does not restore the
  configuration). When the call returns, \<open>self.verbose\<close> and \<open>self.plus\<close> are false
  whatever they were on entry. Let \<open>l_attacks\<close> be the list the call iterates: the
  attack list on entry, extended by the two targeted attacks when \<open>plus\<close> was on. If it
  is not empty and its last identifier is neither \<open>apgd-t\<close> nor \<open>fab-t\<close>,
  \<open>self.attacks_to_run\<close> is the list of that one identifier.
\<close>

theorem individual_run_leaves_configuration:
  assumes "run_standard_evaluation_individual env self w x_orig x_inner y_orig bs
             = Inr (self', w', adv)"
  shows "verbose self' = False \<and> plus_mode self' = False \<and>
         (\<exists>l. attacks_to_run self = Some l \<and>
              (let l_attacks = (if plus_mode self then extend_plus l else l)
               in l_attacks \<noteq> [] \<and> last l_attacks \<notin> set [''apgd-t'', ''fab-t'']
                    \<longrightarrow> attacks_to_run self' = Some [last l_attacks]))"
proof -
  obtain l where l: "attacks_to_run self = Some l"
    using assms unfolding run_standard_evaluation_individual_def Let_def
    by (cases "attacks_to_run self") (auto split: if_splits)
  define l_attacks where "l_attacks = (if plus_mode self then extend_plus l else l)"
  define self2 where
    "self2 = self\<lparr>attacks_to_run := Some l_attacks, plus_mode := False, verbose := False\<rparr>"
  have e: "self\<lparr>attacks_to_run := Some l\<rparr> = self"
    unfolding l[symmetric] by simp
  have "for_each (individual_step env x_orig x_inner y_orig bs (verbose self)) l_attacks
          (self2, w, Map.empty) = Inr (self', w', adv)"
    using assms unfolding run_standard_evaluation_individual_def Let_def
    by (simp add: l l_attacks_def self2_def e split: if_splits)
  from individual_loop_fields[OF this]
  have "\<not> plus_mode self' \<and> \<not> verbose self' \<and>
         (l_attacks \<noteq> [] \<longrightarrow> attacks_to_run self' = Some (remove_plus [last l_attacks]))"
    by (simp add: self2_def)
  then show ?thesis
    using l by (auto simp: l_attacks_def[symmetric] Let_def remove_plus_single)
qed

theorem individual_run_leaves_configuration_witness:
  "verbose (fst (projr (run_standard_evaluation_individual demo_env (demo_two\<lparr>verbose := True\<rparr>)
       demo_world [13, 107] [3, 32, 32] [3, 7] 2))) = False \<and>
   plus_mode (fst (projr (run_standard_evaluation_individual demo_env (demo_two\<lparr>verbose := True\<rparr>)
       demo_world [13, 107] [3, 32, 32] [3, 7] 2))) = False \<and>
   attacks_to_run (fst (projr (run_standard_evaluation_individual demo_env
       (demo_two\<lparr>verbose := True\<rparr>) demo_world [13, 107] [3, 32, 32] [3, 7] 2))) = Some [''fab'']"
proof -
  let ?R = "run_standard_evaluation_individual demo_env (demo_two\<lparr>verbose := True\<rparr>) demo_world
              [13, 107] [3, 32, 32] [3, 7] 2"
  have "?R = Inr (projr ?R)"
    by (rule Inr_projr) (rule demo_individual_run)
  then have r: "?R = Inr (fst (projr ?R), fst (snd (projr ?R)), snd (snd (projr ?R)))"
    by simp
  have a: "attacks_to_run (demo_two\<lparr>verbose := True\<rparr>) = Some [''apgd-ce'', ''fab'']"
    "\<not> plus_mode (demo_two\<lparr>verbose := True\<rparr>)"
    by (simp_all add: demo_two_def demo_self_def default_attacks_to_run_def)
  from individual_run_leaves_configuration[OF r] show ?thesis
    by (simp add: a Let_def)
qed

text \<open>
  Claim C10 as stated fails when the last identifier is a targeted attack. On an object
  with \<open>plus\<close> on and the gradient attack configured the call iterates \<open>apgd-ce\<close>,
  \<open>apgd-t\<close>, \<open>fab-t\<close>; each inner run finds \<open>plus\<close> off and removes the targeted
  identifier from the one-element list, so the attack list is empty afterwards (and the
  two targeted runs return the original samples, although the targeted gradient attack
  of this model breaks both).
\<close>

theorem individual_run_removes_targeted:
  "\<not> isl (run_standard_evaluation_individual demo_env demo_plus demo_world
            [13, 107] [3, 32, 32] [3, 7] 2) \<and>
   attacks_to_run (fst (projr (run_standard_evaluation_individual demo_env demo_plus demo_world
            [13, 107] [3, 32, 32] [3, 7] 2))) = Some [] \<and>
   map (snd (snd (projr (run_standard_evaluation_individual demo_env demo_plus demo_world
            [13, 107] [3, 32, 32] [3, 7] 2)))) [''apgd-ce'', ''apgd-t'', ''fab-t'']
     = [Some [13, 108], Some [13, 107], Some [13, 107]]"
  by code_simp

end
